theory Spec2Isabelle
  imports Complex_Main "HOL-Library.Multiset" "HOL-Library.Char_ord"
    "HOL-Library.List_Lexorder" "HOL-Library.Product_Lexorder"
begin

section \<open>pytimetk: anomalize and augment\_expanding\<close>

text \<open>
  A shallow embedding of \<^verbatim>\<open>src/pytimetk/core/anomalize.py\<close> and of the pandas engine of
  \<^verbatim>\<open>src/pytimetk/feature_engineering/expanding.py\<close>.

  Python floats are modelled by \<^typ>\<open>real\<close>: every statement below is a statement of exact
  arithmetic. A function of the source whose name starts with an underscore carries the
  prefix \<open>p_\<close> here (\<open>_iqr\<close> is \<open>p_iqr\<close>), since an Isabelle name starts with a letter.
\<close>

subsection \<open>Exceptions\<close>

datatype error =
    ConfigurationError
  | ValidationError
  | ZeroDivisionError
  | ValueError
  | TypeError
  | AttributeError
  | IndexError
  | KeyError
  | Exception

subsection \<open>Library routines the code calls\<close>

text \<open>
  \<^verbatim>\<open>np.percentile(a, q)\<close> with numpy's default method (linear interpolation): the
  virtual index \<open>q / 100 * (n - 1)\<close> into the sorted data, split into its integral part
  and its fraction. On an empty column there is no number to return (\<open>None\<close>).
\<close>

definition np_percentile :: "real list \<Rightarrow> nat \<Rightarrow> real option" where
  "np_percentile a q =
     (if a = [] then None
      else
        let s = sort a;
            n = length s;
            previous = (q * (n - 1)) div 100;
            gamma = real ((q * (n - 1)) mod 100) / 100;
            following = min (previous + 1) (n - 1)
        in Some (s ! previous + (s ! following - s ! previous) * gamma))"

text \<open>
  The median pandas computes for a group of a \<^verbatim>\<open>groupby(...).transform('median')\<close>: the
  middle value of the sorted group, or the mean of the two middle values. A group of a
  groupby is never empty, where both branches read inside the list.
\<close>

definition median :: "real list \<Rightarrow> real" where
  "median xs =
     (let s = sort xs; n = length s
      in if odd n then s ! (n div 2) else (s ! (n div 2 - 1) + s ! (n div 2)) / 2)"

text \<open>
  \<^verbatim>\<open>int(np.round(a / b))\<close> for two non-negative Python ints, \<open>b\<close> not zero: numpy rounds
  half to even.
\<close>

definition np_round_div :: "nat \<Rightarrow> nat \<Rightarrow> nat" where
  "np_round_div a b =
     (let q = a div b; r = a mod b
      in if 2 * r < b then q
         else if b < 2 * r then q + 1
         else if even q then q else q + 1)"

text \<open>
  \<^verbatim>\<open>Series.interpolate(method='linear', limit_direction='both')\<close>: a missing value
  (\<open>None\<close>) between two known ones lies on the line through them, by position; a leading
  run takes the first known value and a trailing run the last one; a column with no known
  value stays missing.
\<close>

definition interp_at :: "(nat \<times> real) list \<Rightarrow> nat \<Rightarrow> real option" where
  "interp_at known p =
     (case (filter (\<lambda>kv. fst kv \<le> p) known, filter (\<lambda>kv. p \<le> fst kv) known) of
        ([], []) \<Rightarrow> None
      | ([], kv # _) \<Rightarrow> Some (snd kv)
      | (kv # before, []) \<Rightarrow> Some (snd (last (kv # before)))
      | (kv # before, kv1 # _) \<Rightarrow>
          (let kv0 = last (kv # before)
           in if fst kv0 = fst kv1 then Some (snd kv0)
              else Some (snd kv0 + (snd kv1 - snd kv0) * real (p - fst kv0)
                                     / real (fst kv1 - fst kv0))))"

definition interpolate_linear :: "real option list \<Rightarrow> real option list" where
  "interpolate_linear col =
     (let known = concat (map (\<lambda>iv. case snd iv of None \<Rightarrow> [] | Some v \<Rightarrow> [(fst iv, v)])
                              (zip [0..<length col] col))
      in map (interp_at known) [0..<length col])"

subsection \<open>Tables\<close>

text \<open>
  A DataFrame is its column axis (the names, in order) and its rows. The input of
  \<open>anomalize\<close> is read through two columns only, the one named by \<open>date_column\<close> and the
  one named by \<open>value_column\<close>: an input row is the pair of the two.
\<close>

record 'r frame =
  columns :: "string list"
  rows :: "'r list"

text \<open>
  The keyword arguments of \<open>anomalize\<close>. The argument that selects the decomposition
  (\<^verbatim>\<open>method\<close> in the source) is the field \<open>method_name\<close>.
\<close>

record config =
  period :: "nat option"
  trend :: "nat option"
  method_name :: string
  decomp :: string
  clean :: string
  iqr_alpha :: real
  clean_alpha :: real
  max_anomalies :: real
  bind_data :: bool
  threads :: int

text \<open>The rows \<open>_iqr\<close> returns.\<close>

record iqr_row =
  outlier_reported :: string
  direction :: int
  score :: real
  remainder_l1 :: real
  remainder_l2 :: real

text \<open>
  A cell of a column that steps 3 and 4 of \<open>_anomalize\<close> assign: the value computed, or
  the timestamp that \<^verbatim>\<open>result[date_column] = orig_date_column\<close> writes over it when
  \<open>date_column\<close> is the name of that column.
\<close>

datatype ('d, 'a) entry = Val 'a | Stamp 'd

text \<open>
  The rows of a decomposition, and the rows \<open>_anomalize\<close> returns. \<open>observed_clean\<close> is
  \<open>None\<close> where pandas holds NaN (linear cleaning of a column with no clean point).
\<close>

record 'd decomp_row =
  date :: 'd
  observed :: real
  seasonal :: real
  seasadj :: real
  trend :: real
  remainder :: real

record 'd anomaly_row = "'d decomp_row" +
  anomaly :: "('d, string) entry"
  anomaly_score :: "('d, real) entry"
  anomaly_direction :: "('d, int) entry"
  recomposed_l1 :: "('d, real) entry"
  recomposed_l2 :: "('d, real) entry"
  observed_clean :: "('d, real option) entry"

text \<open>
  What the code takes from outside this file: the frequency helpers of
  \<^verbatim>\<open>pytimetk.core.frequency\<close>, the numerical work of statsmodels' \<open>seasonal_decompose\<close>
  (the seasonal and the trend component of a series for a period and a model, or the
  exception it raises) and the number of processors \<open>get_threads\<close> reports.
\<close>

record 'd env =
  get_seasonal_frequency :: "'d list \<Rightarrow> nat"
  get_trend_frequency :: "'d list \<Rightarrow> nat"
  components :: "real list \<Rightarrow> nat \<Rightarrow> string \<Rightarrow> error + (real list \<times> real list)"
  cpu_count :: int

text \<open>
  Modelled from the spec: statsmodels' \<open>seasonal_decompose\<close> is not under src/. The spec
  (4.1, 7, 8) says of it that a period greater than or equal to the length of the series
  fails with a ConfigurationError; what it computes otherwise is the parameter
  \<open>components\<close>.
\<close>

definition seasonal_decompose ::
  "'d env \<Rightarrow> real list \<Rightarrow> nat \<Rightarrow> string \<Rightarrow> error + (real list \<times> real list)" where
  "seasonal_decompose E series p model =
     (if length series \<le> p then Inl ConfigurationError else components E series p model)"

text \<open>
  \<^verbatim>\<open>DataFrame.reset_index\<close>: the index levels become the leading columns; pandas raises
  ValueError when a column of that name exists already.
\<close>

definition reset_index :: "string list \<Rightarrow> string list \<Rightarrow> error + string list" where
  "reset_index names cols =
     (if \<exists>n \<in> set names. n \<in> set cols then Inl ValueError else Inr (names @ cols))"

text \<open>\<^verbatim>\<open>df[name] = ...\<close> on the column axis: an existing column keeps its place.\<close>

definition assign :: "string \<Rightarrow> string list \<Rightarrow> string list" where
  "assign name cols = (if name \<in> set cols then cols else cols @ [name])"

subsection \<open>\<open>_iqr\<close>\<close>

definition p_iqr :: "real list \<Rightarrow> real \<Rightarrow> real \<Rightarrow> error + iqr_row list" where
  "p_iqr target alpha max_anoms =
     (if alpha = 0 then Inl ZeroDivisionError
      else
        case (np_percentile target 25, np_percentile target 75) of
          (Some q1, Some q3) \<Rightarrow>
            (let iq_range = q3 - q1;
                 limits = [-1 * (q1 + (0.15 / alpha) * iq_range), q3 + (0.15 / alpha) * iq_range];
                 centerline = sum_list limits / 2
             in Inr (map (\<lambda>x.
                  \<lparr> outlier_reported =
                       (if x > limits ! 1 then ''Yes'' else if x < limits ! 0 then ''Yes'' else ''No''),
                     direction = (if x > limits ! 1 then 1 else if x < limits ! 0 then -1 else 0),
                     score = \<bar>x - centerline\<bar>,
                     remainder_l1 = limits ! 0,
                     remainder_l2 = limits ! 1 \<rparr>) target))
        | _ \<Rightarrow> Inr [])"

subsection \<open>The two decompositions\<close>

definition repeat_sequence :: "nat list \<Rightarrow> nat \<Rightarrow> error + nat list" where
  "repeat_sequence seq length_out =
     (if length seq = 0 then Inl ZeroDivisionError
      else
        let quotient = length_out div length seq;
            rest = length_out mod length seq
        in Inr (concat (replicate quotient seq) @ take rest seq))"

text \<open>\<^verbatim>\<open>df.groupby('median_index')['seasadj'].transform('median')\<close>.\<close>

definition transform_median :: "nat list \<Rightarrow> real list \<Rightarrow> real list" where
  "transform_median median_index vals =
     map (\<lambda>k. median (map snd (filter (\<lambda>kv. fst kv = k) (zip median_index vals)))) median_index"

text \<open>\<^verbatim>\<open>pd.concat([observed, seasonal, seasadj, trend, resid], axis=1)\<close> with the index.\<close>

definition decomposition_rows ::
  "'d list \<Rightarrow> real list \<Rightarrow> real list \<Rightarrow> real list \<Rightarrow> real list \<Rightarrow> real list \<Rightarrow> 'd decomp_row list" where
  "decomposition_rows ds obs seas sadj trnd resid =
     map (\<lambda>(d, ob, se, sa, tr, re).
            \<lparr> date = d, observed = ob, seasonal = se, seasadj = sa, trend = tr, remainder = re \<rparr>)
         (zip ds (zip obs (zip seas (zip sadj (zip trnd resid)))))"

definition decomposition_columns :: "string list" where
  "decomposition_columns = [''observed'', ''seasonal'', ''seasadj'', ''trend'', ''remainder'']"

definition p_twitter_decompose ::
  "'d env \<Rightarrow> ('d \<times> real) frame \<Rightarrow> string \<Rightarrow> string \<Rightarrow> nat \<Rightarrow> nat option \<Rightarrow> string
     \<Rightarrow> error + 'd decomp_row frame" where
  "p_twitter_decompose E data date_column value_column p median_span model =
     (let series = map snd (rows data)
      in case seasonal_decompose E series p model of
           Inl e \<Rightarrow> Inl e
         | Inr (result_seasonal, result_trend) \<Rightarrow>
             (let seasadj = map2 (-) series result_seasonal;
                  median_span = (case median_span of None \<Rightarrow> 4 | Some m \<Rightarrow> m)
              in case repeat_sequence [0..<median_span] (length seasadj) of
                   Inl e \<Rightarrow> Inl e
                 | Inr seq \<Rightarrow>
                     (let median_index = sort seq;
                          trend = transform_median median_index seasadj;
                          resid = map2 (-) seasadj trend
                      in case reset_index [date_column] decomposition_columns of
                           Inl e \<Rightarrow> Inl e
                         | Inr cols \<Rightarrow>
                             Inr \<lparr> columns = cols,
                                   rows = decomposition_rows (map fst (rows data)) series
                                            result_seasonal seasadj trend resid \<rparr>)))"

definition p_seasonal_decompose ::
  "'d env \<Rightarrow> ('d \<times> real) frame \<Rightarrow> string \<Rightarrow> string \<Rightarrow> string \<Rightarrow> nat
     \<Rightarrow> error + 'd decomp_row frame" where
  "p_seasonal_decompose E data date_column value_column model p =
     (let series = map snd (rows data)
      in case seasonal_decompose E series p model of
           Inl e \<Rightarrow> Inl e
         | Inr (result_seasonal, result_trend) \<Rightarrow>
             (let seasadj = map2 (-) series result_seasonal;
                  trend = result_trend;
                  resid = map2 (-) seasadj trend
              in case reset_index [date_column] decomposition_columns of
                   Inl e \<Rightarrow> Inl e
                 | Inr cols \<Rightarrow>
                     Inr \<lparr> columns = cols,
                           rows = decomposition_rows (map fst (rows data)) series
                                    result_seasonal seasadj trend resid \<rparr>))"

subsection \<open>\<open>_anomalize\<close>: one series\<close>

text \<open>
  The names of the columns steps 3 and 4 assign, in the order of the assignments.
\<close>

definition anomaly_columns :: "string list" where
  "anomaly_columns = [''anomaly'', ''anomaly_score'', ''anomaly_direction'',
                      ''recomposed_l1'', ''recomposed_l2'', ''observed_clean'']"

definition anomaly_rows ::
  "'d decomp_row list \<Rightarrow> string list \<Rightarrow> real list \<Rightarrow> int list \<Rightarrow> real list \<Rightarrow> real list
     \<Rightarrow> real option list \<Rightarrow> 'd anomaly_row list" where
  "anomaly_rows result anom sc dir l1 l2 cleaned =
     map (\<lambda>(r, a, s, d, lo, hi, c).
            \<lparr> date = date r, observed = observed r, seasonal = seasonal r, seasadj = seasadj r,
              trend = trend r, remainder = remainder r,
              anomaly = Val a, anomaly_score = Val s, anomaly_direction = Val d,
              recomposed_l1 = Val lo, recomposed_l2 = Val hi, observed_clean = Val c \<rparr>)
         (zip result (zip anom (zip sc (zip dir (zip l1 (zip l2 cleaned))))))"

text \<open>
  \<^verbatim>\<open>result[date_column] = orig_date_column\<close> on one row: the timestamp goes into the
  column named \<open>date_column\<close>. A column of steps 3 and 4 with that name took the place of
  the timestamp column when it was assigned, and holds the timestamp from here on.
\<close>

definition set_date_column :: "string \<Rightarrow> 'd \<Rightarrow> 'd anomaly_row \<Rightarrow> 'd anomaly_row" where
  "set_date_column name d r =
     (let r = r \<lparr> date := d \<rparr>
      in if name = ''anomaly'' then r \<lparr> anomaly := Stamp d \<rparr>
         else if name = ''anomaly_score'' then r \<lparr> anomaly_score := Stamp d \<rparr>
         else if name = ''anomaly_direction'' then r \<lparr> anomaly_direction := Stamp d \<rparr>
         else if name = ''recomposed_l1'' then r \<lparr> recomposed_l1 := Stamp d \<rparr>
         else if name = ''recomposed_l2'' then r \<lparr> recomposed_l2 := Stamp d \<rparr>
         else if name = ''observed_clean'' then r \<lparr> observed_clean := Stamp d \<rparr>
         else r)"

definition p_anomalize ::
  "'d env \<Rightarrow> ('d \<times> real) frame \<Rightarrow> string \<Rightarrow> string \<Rightarrow> config \<Rightarrow> error + 'd anomaly_row frame" where
  "p_anomalize E data date_column value_column cfg =
     (let orig_date_column = map fst (rows data);
          p = (case period cfg of
                 None \<Rightarrow> get_seasonal_frequency E (map fst (rows data))
               | Some p \<Rightarrow> p);
          t = (case config.trend cfg of
                 None \<Rightarrow> get_trend_frequency E (map fst (rows data))
               | Some t \<Rightarrow> t);
          decomposed =
            (if method_name cfg = ''twitter'' then
               (if t = 0 then Inl ZeroDivisionError
                else p_twitter_decompose E data date_column value_column p
                       (Some (np_round_div (length (rows data)) t)) (decomp cfg))
             else p_seasonal_decompose E data date_column value_column (decomp cfg) p)
      in case decomposed of
           Inl e \<Rightarrow> Inl e
         | Inr result \<Rightarrow>
             (case p_iqr (map remainder (rows result)) (iqr_alpha cfg) (max_anomalies cfg) of
                Inl e \<Rightarrow> Inl e
              | Inr outlier_df \<Rightarrow>
                  (let anom = map outlier_reported outlier_df;
                       sc = map score outlier_df;
                       dir = map direction outlier_df;
                       l1 = map (\<lambda>(r, ou). seasonal r + trend r + remainder_l1 ou)
                                (zip (rows result) outlier_df);
                       l2 = map (\<lambda>(r, ou). seasonal r + trend r + remainder_l2 ou)
                                (zip (rows result) outlier_df);
                       cleaned =
                         (if clean cfg = ''linear'' then
                            interpolate_linear
                              (map (\<lambda>(r, a). if a = ''No'' then Some (observed r) else None)
                                   (zip (rows result) anom))
                          else
                            map (\<lambda>(r, d, lo, hi).
                                   if d = -1 then Some (clean_alpha cfg * lo)
                                   else if d = 1 then Some (clean_alpha cfg * hi)
                                   else Some (observed r))
                                (zip (rows result) (zip dir (zip l1 l2))));
                       cols = assign date_column (foldl (\<lambda>cs n. assign n cs) (columns result) anomaly_columns);
                       out = map (\<lambda>(r, d). set_date_column date_column d r)
                                 (zip (anomaly_rows (rows result) anom sc dir l1 l2 cleaned)
                                      orig_date_column)
                   in if bind_data cfg
                      then Inr \<lparr> columns = columns data @ filter (\<lambda>c. c \<noteq> date_column) cols,
                                 rows = out \<rparr>
                      else Inr \<lparr> columns = cols, rows = out \<rparr>)))"

subsection \<open>\<open>anomalize\<close>: a table or a grouped table\<close>

text \<open>
  A grouped table: the names of the grouping columns, the columns of the table that was
  grouped, and the groups in the order pandas meets them, each with its key.
\<close>

datatype ('k, 'd) data =
    DataFrame "('d \<times> real) frame"
  | DataFrameGroupBy "string list" "string list" "('k list \<times> ('d \<times> real) list) list"

text \<open>
  Modelled from the spec: the checks of \<^verbatim>\<open>pytimetk.utils.checks\<close> are not under src/.
  The spec (7) has them raise a ValidationError, before any computation, when a required
  column is missing.
\<close>

definition check_column :: "('k, 'd) data \<Rightarrow> string \<Rightarrow> error + unit" where
  "check_column data name =
     (case data of
        DataFrame df \<Rightarrow> if name \<in> set (columns df) then Inr () else Inl ValidationError
      | DataFrameGroupBy group_names cols groups \<Rightarrow>
          if name \<in> set cols then Inr () else Inl ValidationError)"

text \<open>
  Modelled from the spec: \<^verbatim>\<open>pytimetk.utils.parallel_helpers\<close> is not under src/. The spec
  (4.5, 5, 9) has \<open>get_threads\<close> resolve the request for all available capacity (-1) to the
  host's count, and has the sequential and the parallel engine satisfy one contract: the
  function is applied to each group, the first failure aborts the call, and the results
  are put together in the order of the groups, keyed by group. pandas raises ValueError
  when there is nothing to concatenate.
\<close>

definition get_threads :: "'d env \<Rightarrow> int \<Rightarrow> int" where
  "get_threads E n = (if n = -1 then cpu_count E else n)"

fun apply_each :: "('a \<Rightarrow> error + 'b) \<Rightarrow> 'a list \<Rightarrow> error + 'b list" where
  "apply_each f [] = Inr []"
| "apply_each f (x # xs) =
     (case f x of
        Inl e \<Rightarrow> Inl e
      | Inr y \<Rightarrow> (case apply_each f xs of Inl e \<Rightarrow> Inl e | Inr ys \<Rightarrow> Inr (y # ys)))"

definition apply_groups ::
  "string list \<Rightarrow> ('k list \<times> 'a list) list \<Rightarrow> ('a frame \<Rightarrow> error + 'r frame)
     \<Rightarrow> error + ('k list \<times> 'r) frame" where
  "apply_groups cols groups func =
     (case apply_each (\<lambda>(key, g). case func \<lparr> columns = cols, rows = g \<rparr> of
                                    Inl e \<Rightarrow> Inl e
                                  | Inr res \<Rightarrow> Inr (key, res)) groups of
        Inl e \<Rightarrow> Inl e
      | Inr [] \<Rightarrow> Inl ValueError
      | Inr (r # rs) \<Rightarrow>
          Inr \<lparr> columns = columns (snd r),
                rows = concat (map (\<lambda>(key, res). map (Pair key) (rows res)) (r # rs)) \<rparr>)"

definition progress_apply ::
  "string list \<Rightarrow> ('k list \<times> 'a list) list \<Rightarrow> ('a frame \<Rightarrow> error + 'r frame)
     \<Rightarrow> error + ('k list \<times> 'r) frame" where
  "progress_apply cols groups func = apply_groups cols groups func"

definition parallel_apply ::
  "string list \<Rightarrow> ('k list \<times> 'a list) list \<Rightarrow> ('a frame \<Rightarrow> error + 'r frame)
     \<Rightarrow> error + ('k list \<times> 'r) frame" where
  "parallel_apply cols groups func = apply_groups cols groups func"

text \<open>
  A row of the result carries the values of the grouping columns (none for a plain table)
  and the row of \<open>_anomalize\<close>.
\<close>

definition anomalize ::
  "'d env \<Rightarrow> ('k, 'd) data \<Rightarrow> string \<Rightarrow> string \<Rightarrow> config
     \<Rightarrow> error + ('k list \<times> 'd anomaly_row) frame" where
  "anomalize E data date_column value_column cfg =
     (case check_column data date_column of
        Inl e \<Rightarrow> Inl e
      | Inr _ \<Rightarrow>
     (case check_column data value_column of
        Inl e \<Rightarrow> Inl e
      | Inr _ \<Rightarrow>
     (case data of
        DataFrame df \<Rightarrow>
          (case p_anomalize E df date_column value_column cfg of
             Inl e \<Rightarrow> Inl e
           | Inr result \<Rightarrow> Inr \<lparr> columns = columns result, rows = map (Pair []) (rows result) \<rparr>)
      | DataFrameGroupBy group_names cols groups \<Rightarrow>
          (case (if get_threads E (threads cfg) = 1
                 then progress_apply cols groups
                        (\<lambda>g. p_anomalize E g date_column value_column cfg)
                 else parallel_apply cols groups
                        (\<lambda>g. p_anomalize E g date_column value_column cfg)) of
             Inl e \<Rightarrow> Inl e
           | Inr result \<Rightarrow>
               (case reset_index group_names (columns result) of
                  Inl e \<Rightarrow> Inl e
                | Inr cs \<Rightarrow> Inr \<lparr> columns = cs, rows = rows result \<rparr>)))))"

subsection \<open>Step 1 of \<open>_anomalize\<close>, named\<close>

text \<open>
  The expression \<open>_anomalize\<close> decomposes the series with (steps 0 and 1), stated once more
  under a name of its own, for the statements below.
\<close>

definition decomposition ::
  "'d env \<Rightarrow> ('d \<times> real) frame \<Rightarrow> string \<Rightarrow> string \<Rightarrow> config \<Rightarrow> error + 'd decomp_row frame" where
  "decomposition E data date_column value_column cfg =
     (let p = (case period cfg of
                 None \<Rightarrow> get_seasonal_frequency E (map fst (rows data))
               | Some p \<Rightarrow> p);
          t = (case config.trend cfg of
                 None \<Rightarrow> get_trend_frequency E (map fst (rows data))
               | Some t \<Rightarrow> t)
      in if method_name cfg = ''twitter'' then
               (if t = 0 then Inl ZeroDivisionError
                else p_twitter_decompose E data date_column value_column p
                       (Some (np_round_div (length (rows data)) t)) (decomp cfg))
             else p_seasonal_decompose E data date_column value_column (decomp cfg) p)"

text \<open>
  The trend the spec describes for the twitter variant, in the spec's words: index \<open>i\<close>
  belongs to sub-sequence \<open>i mod median_span\<close>, and the trend of a point is the median of
  its sub-sequence.
\<close>

definition round_robin_trend :: "real list \<Rightarrow> nat \<Rightarrow> real list" where
  "round_robin_trend seasadj_col median_span =
     map (\<lambda>i. median (map (\<lambda>j. seasadj_col ! j)
                         (filter (\<lambda>j. j mod median_span = i mod median_span)
                                 [0..<length seasadj_col])))
         [0..<length seasadj_col]"

text \<open>
  The blocks the code forms: \<open>sorted(repeat_sequence(range(median_span), n))\<close> puts the
  labels in ascending order, so label \<open>k\<close> covers one run of consecutive rows, one row
  longer for the first \<open>n mod median_span\<close> labels.
\<close>

definition median_blocks :: "nat \<Rightarrow> nat \<Rightarrow> nat list" where
  "median_blocks n median_span =
     concat (map (\<lambda>k. replicate (n div median_span + (if k < n mod median_span then 1 else 0)) k)
                 [0..<median_span])"

text \<open>The grouping columns and the columns of the table a call of \<open>anomalize\<close> is given.\<close>

definition grouping_columns :: "('k, 'd) data \<Rightarrow> string list" where
  "grouping_columns data =
     (case data of DataFrame df \<Rightarrow> [] | DataFrameGroupBy group_names cols groups \<Rightarrow> group_names)"

definition input_columns :: "('k, 'd) data \<Rightarrow> string list" where
  "input_columns data =
     (case data of DataFrame df \<Rightarrow> columns df | DataFrameGroupBy group_names cols groups \<Rightarrow> cols)"

section \<open>\<open>augment_expanding\<close>, pandas engine\<close>

subsection \<open>Tables with a row index\<close>

text \<open>
  A cell is a number, a string or missing. A row of a DataFrame is its index label and its
  cells by column name, in column order; a table is a \<^typ>\<open>'r frame\<close> of such rows.
\<close>

datatype cell = Num real | Str string | NaN

record xrow =
  label :: int
  cells :: "(string \<times> cell) list"

definition cell_at :: "xrow \<Rightarrow> string \<Rightarrow> cell" where
  "cell_at r name = (case map_of (cells r) name of Some v \<Rightarrow> v | None \<Rightarrow> NaN)"

definition column :: "string \<Rightarrow> xrow frame \<Rightarrow> cell list" where
  "column name df = map (\<lambda>r. cell_at r name) (rows df)"

text \<open>\<^verbatim>\<open>df[name] = values\<close> for one row: an existing cell is replaced in place.\<close>

fun set_cell :: "string \<Rightarrow> cell \<Rightarrow> (string \<times> cell) list \<Rightarrow> (string \<times> cell) list" where
  "set_cell name v [] = [(name, v)]"
| "set_cell name v (p # ps) = (if fst p = name then (name, v) # ps else p # set_cell name v ps)"

text \<open>
  \<^verbatim>\<open>df[name] = series\<close>: the series is aligned on the index of the table, a row it
  does not reach gets a missing value.
\<close>

definition assign_column :: "string \<Rightarrow> cell list \<Rightarrow> xrow frame \<Rightarrow> xrow frame" where
  "assign_column name vals df =
     \<lparr> columns = assign name (columns df),
       rows = map (\<lambda>(r, v). r \<lparr> cells := set_cell name v (cells r) \<rparr>)
                  (zip (rows df) (vals @ replicate (length (rows df) - length vals) NaN)) \<rparr>"

text \<open>
  The order \<^verbatim>\<open>sort_values\<close> puts cells in: numbers by value, then strings, missing
  values last. The sort is taken to be stable; so is \<^verbatim>\<open>sort_index\<close>.
\<close>

definition cell_key :: "cell \<Rightarrow> nat \<times> real \<times> string" where
  "cell_key c = (case c of Num x \<Rightarrow> (0, x, []) | Str s \<Rightarrow> (1, 0, s) | NaN \<Rightarrow> (2, 0, []))"

definition sort_values :: "string list \<Rightarrow> xrow frame \<Rightarrow> xrow frame" where
  "sort_values by df =
     df \<lparr> rows := sort_key (\<lambda>r. map (\<lambda>c. cell_key (cell_at r c)) by) (rows df) \<rparr>"

definition sort_index :: "xrow frame \<Rightarrow> xrow frame" where
  "sort_index df = df \<lparr> rows := sort_key label (rows df) \<rparr>"

text \<open>
  \<^verbatim>\<open>df.groupby(names)\<close>, iterated: one table per key, the keys in the order of the
  (sorted) table; a row with a missing value in a grouping column belongs to no group.
\<close>

definition key_of :: "string list \<Rightarrow> xrow \<Rightarrow> cell list" where
  "key_of names r = map (cell_at r) names"

definition groupby :: "string list \<Rightarrow> xrow frame \<Rightarrow> xrow frame list" where
  "groupby names df =
     (let live = filter (\<lambda>r. NaN \<notin> set (key_of names r)) (rows df)
      in map (\<lambda>k. \<lparr> columns = columns df, rows = filter (\<lambda>r. key_of names r = k) live \<rparr>)
             (remdups (map (key_of names) live)))"

text \<open>\<^verbatim>\<open>pd.concat(dfs)\<close> of tables with the same columns; pandas refuses an empty list.\<close>

definition concat_frames :: "xrow frame list \<Rightarrow> error + xrow frame" where
  "concat_frames dfs =
     (case dfs of
        [] \<Rightarrow> Inl ValueError
      | df # _ \<Rightarrow> Inr \<lparr> columns = columns df, rows = concat (map rows dfs) \<rparr>)"

subsection \<open>The arguments\<close>

text \<open>
  The Python values \<open>window_func\<close> is made of: a string, a function with its number of
  parameters, a tuple, a list, a dict of keyword arguments, or anything else.
\<close>

datatype 'v pyobj =
    PStr string
  | PFunction nat "real list \<Rightarrow> real"
  | PTuple "'v pyobj list"
  | PList "'v pyobj list"
  | PDict "(string \<times> 'v) list"
  | PNone

text \<open>
  \<^verbatim>\<open>for func in window_func\<close>: a list or a tuple gives its elements, a string its
  characters, a dict its keys; a function and \<open>None\<close> cannot be looped over.
\<close>

definition iterate :: "'v pyobj \<Rightarrow> error + 'v pyobj list" where
  "iterate obj =
     (case obj of
        PList items \<Rightarrow> Inr items
      | PTuple items \<Rightarrow> Inr items
      | PStr s \<Rightarrow> Inr (map (\<lambda>c. PStr [c]) s)
      | PDict kw \<Rightarrow> Inr (map (\<lambda>(k, v). PStr k) kw)
      | _ \<Rightarrow> Inl TypeError)"

datatype xdata = Table "xrow frame" | GroupedTable "string list" "xrow frame"

text \<open>
  What the code takes from pandas and from the rest of the package: the expanding window
  of a column with \<open>min_periods\<close> (and the \<open>kwargs\<close> of the call), as its \<open>apply\<close> on a
  function, its \<open>quantile\<close>, and its attribute of a given name (\<open>None\<close> when \<open>getattr\<close>
  finds nothing), each returning the new column or the exception raised; and the polars
  engine, which is not modelled.
\<close>

record 'v engines =
  expanding_apply :: "int \<Rightarrow> (real list \<Rightarrow> real) \<Rightarrow> cell list \<Rightarrow> error + cell list"
  expanding_quantile :: "int \<Rightarrow> real \<Rightarrow> cell list \<Rightarrow> error + cell list"
  expanding_attr ::
    "int \<Rightarrow> string \<Rightarrow> ((string \<times> 'v) list option \<Rightarrow> cell list \<Rightarrow> error + cell list) option"
  polars_engine ::
    "xdata \<Rightarrow> string \<Rightarrow> string list \<Rightarrow> 'v pyobj \<Rightarrow> int \<Rightarrow> error + xrow frame"

text \<open>
  Modelled from the spec: \<^verbatim>\<open>pytimetk.utils.polars_helpers.update_dict\<close> is not under
  src/; the comment at its call says it updates the default parameters without adding new
  keys.
\<close>

definition update_dict :: "(string \<times> 'v) list \<Rightarrow> (string \<times> 'v) list \<Rightarrow> (string \<times> 'v) list" where
  "update_dict default_kwargs user_kwargs =
     map (\<lambda>(k, v). (k, case map_of user_kwargs k of Some u \<Rightarrow> u | None \<Rightarrow> v)) default_kwargs"

subsection \<open>One window function on one column of one group\<close>

text \<open>
  The branch for a function given by name (source lines 290 to 307). \<^verbatim>\<open>group_df[col]\<close>
  raises KeyError for a column the table does not have.
\<close>

definition named_column :: "'v engines \<Rightarrow> int \<Rightarrow> string \<Rightarrow> string \<Rightarrow> xrow frame \<Rightarrow> error + xrow frame" where
  "named_column P min_periods col func group_df =
     (if col \<notin> set (columns group_df) then Inl KeyError
      else if func = ''quantile'' then
        (case expanding_quantile P min_periods (1 / 2) (column col group_df) of
           Inl e \<Rightarrow> Inl e
         | Inr vals \<Rightarrow>
             Inr (assign_column (col @ ''_expanding_'' @ func @ ''_50'') vals group_df))
      else
        (case expanding_attr P min_periods func of
           None \<Rightarrow> Inl ValueError
         | Some expanding_function \<Rightarrow>
             (case expanding_function None (column col group_df) of
                Inl e \<Rightarrow> Inl e
              | Inr vals \<Rightarrow> Inr (assign_column (col @ ''_expanding_'' @ func) vals group_df))))"

text \<open>
  The branch for a configurable function \<open>('configurable', func_name, default_kwargs,
  user_kwargs)\<close> (source lines 256 to 286). An attribute that does not exist adds no
  column and raises nothing.
\<close>

definition configurable_column ::
  "'v engines \<Rightarrow> int \<Rightarrow> string \<Rightarrow> string \<Rightarrow> 'v pyobj list \<Rightarrow> xrow frame \<Rightarrow> error + xrow frame" where
  "configurable_column P min_periods col new_column_name func group_df =
     (if length func \<noteq> 4 then Inl ValueError
      else
        case func ! 3 of
          PDict user_kwargs \<Rightarrow>
            (case func ! 2 of
               PDict default_kwargs \<Rightarrow>
                 (case func ! 1 of
                    PStr func_name \<Rightarrow>
                      if col \<notin> set (columns group_df) then Inl AttributeError
                      else
                      (case expanding_attr P min_periods func_name of
                         None \<Rightarrow> Inr group_df
                       | Some expanding_function \<Rightarrow>
                           (case expanding_function
                                   (Some (update_dict default_kwargs user_kwargs))
                                   (column col group_df) of
                              Inl e \<Rightarrow> Inl Exception
                            | Inr vals \<Rightarrow> Inr (assign_column new_column_name vals group_df)))
                  | _ \<Rightarrow> Inl AttributeError)
             | _ \<Rightarrow> Inl ValueError)
        | _ \<Rightarrow> Inl ValueError)"

text \<open>The branch for a tuple \<open>(user_func_name, func)\<close> (source lines 244 to 288).\<close>

definition tuple_column ::
  "'v engines \<Rightarrow> int \<Rightarrow> string \<Rightarrow> string \<Rightarrow> 'v pyobj \<Rightarrow> xrow frame \<Rightarrow> error + xrow frame" where
  "tuple_column P min_periods col user_func_name func group_df =
     (let new_column_name = col @ ''_expanding_'' @ user_func_name
      in case func of
           PFunction n f \<Rightarrow>
             if n = 1 then
               if col \<notin> set (columns group_df) then Inl Exception
               else
               (case expanding_apply P min_periods f (column col group_df) of
                  Inl e \<Rightarrow> Inl Exception
                | Inr vals \<Rightarrow> Inr (assign_column new_column_name vals group_df))
             else Inl TypeError
         | PTuple conf \<Rightarrow>
             (case conf of
                [] \<Rightarrow> Inl IndexError
              | tag # _ \<Rightarrow>
                  (case tag of
                     PStr s \<Rightarrow>
                       if s = ''configurable''
                       then configurable_column P min_periods col new_column_name conf group_df
                       else Inl TypeError
                   | _ \<Rightarrow> Inl TypeError))
         | _ \<Rightarrow> Inl TypeError)"

text \<open>The body of the innermost loop (source lines 237 to 309).\<close>

definition expanding_column ::
  "'v engines \<Rightarrow> int \<Rightarrow> string \<Rightarrow> 'v pyobj \<Rightarrow> xrow frame \<Rightarrow> error + xrow frame" where
  "expanding_column P min_periods col func group_df =
     (case func of
        PTuple items \<Rightarrow>
          if length items \<noteq> 2 then Inl ValueError
          else (case items ! 0 of
                  PStr user_func_name \<Rightarrow>
                    tuple_column P min_periods col user_func_name (items ! 1) group_df
                | _ \<Rightarrow> Inl TypeError)
      | PStr name \<Rightarrow> named_column P min_periods col name group_df
      | _ \<Rightarrow> Inl TypeError)"

subsection \<open>\<open>_augment_expanding_pandas\<close> and \<open>augment_expanding\<close>\<close>

text \<open>A loop over a list that an exception leaves.\<close>

fun fold_err :: "('a \<Rightarrow> 's \<Rightarrow> error + 's) \<Rightarrow> 'a list \<Rightarrow> 's \<Rightarrow> error + 's" where
  "fold_err f [] s = Inr s"
| "fold_err f (x # xs) s = (case f x s of Inl e \<Rightarrow> Inl e | Inr s' \<Rightarrow> fold_err f xs s')"

definition table_of :: "xdata \<Rightarrow> xrow frame" where
  "table_of data = (case data of Table df \<Rightarrow> df | GroupedTable group_names df \<Rightarrow> df)"

definition group_names_of :: "xdata \<Rightarrow> string list" where
  "group_names_of data = (case data of Table df \<Rightarrow> [] | GroupedTable group_names df \<Rightarrow> group_names)"

text \<open>The loops over \<open>value_column\<close> and \<open>window_func\<close>, on one group.\<close>

definition expanding_columns ::
  "'v engines \<Rightarrow> int \<Rightarrow> string list \<Rightarrow> 'v pyobj \<Rightarrow> xrow frame \<Rightarrow> error + xrow frame" where
  "expanding_columns P min_periods value_column window_func group_df =
     fold_err (\<lambda>col df. case iterate window_func of
                          Inl e \<Rightarrow> Inl e
                        | Inr funcs \<Rightarrow> fold_err (expanding_column P min_periods col) funcs df)
              value_column group_df"

definition p_augment_expanding_pandas ::
  "'v engines \<Rightarrow> xdata \<Rightarrow> string \<Rightarrow> string list \<Rightarrow> 'v pyobj \<Rightarrow> int \<Rightarrow> error + xrow frame" where
  "p_augment_expanding_pandas P data date_column value_column window_func min_periods =
     (let data_copy = table_of data
      in if date_column \<notin> set (columns data_copy) then Inl KeyError
      else
      let grouped =
            (case data of
               GroupedTable group_names df \<Rightarrow>
                 groupby group_names (sort_values (group_names @ [date_column]) data_copy)
             | Table df \<Rightarrow> [sort_values [date_column] data_copy])
      in case apply_each (expanding_columns P min_periods value_column window_func) grouped of
           Inl e \<Rightarrow> Inl e
         | Inr result_dfs \<Rightarrow>
             (case concat_frames result_dfs of
                Inl e \<Rightarrow> Inl e
              | Inr result_df \<Rightarrow> Inr (sort_index result_df)))"

text \<open>
  Modelled from the spec: the checks of \<^verbatim>\<open>pytimetk.utils.checks\<close> are not under src/;
  a missing column is a ValidationError raised before any computation.
\<close>

definition check_columns :: "xdata \<Rightarrow> string list \<Rightarrow> error + unit" where
  "check_columns data names =
     (if set names \<subseteq> set (columns (table_of data)) then Inr () else Inl ValidationError)"

text \<open>
  \<open>value_column\<close> is one name (\<open>Inl\<close>) or a list of names (\<open>Inr\<close>); \<open>window_func\<close> is any
  Python value, of which a string or a tuple stands for the list of itself.
\<close>

definition as_list :: "'v pyobj \<Rightarrow> 'v pyobj" where
  "as_list window_func =
     (case window_func of
        PStr s \<Rightarrow> PList [window_func]
      | PTuple items \<Rightarrow> PList [window_func]
      | _ \<Rightarrow> window_func)"

definition augment_expanding ::
  "'v engines \<Rightarrow> xdata \<Rightarrow> string \<Rightarrow> string + string list \<Rightarrow> 'v pyobj \<Rightarrow> int option \<Rightarrow> string
     \<Rightarrow> error + xrow frame" where
  "augment_expanding P data date_column value_column window_func min_periods engine =
     (case check_columns data [date_column] of
        Inl e \<Rightarrow> Inl e
      | Inr _ \<Rightarrow>
     (let value_column = (case value_column of Inl name \<Rightarrow> [name] | Inr names \<Rightarrow> names)
      in case check_columns data value_column of
           Inl e \<Rightarrow> Inl e
         | Inr _ \<Rightarrow>
     (let window_func = as_list window_func;
          min_periods = (case min_periods of None \<Rightarrow> 1 | Some n \<Rightarrow> n)
      in if engine = ''pandas'' then
           p_augment_expanding_pandas P data date_column value_column window_func min_periods
         else if engine = ''polars'' then
           polars_engine P data date_column value_column window_func min_periods
         else Inl ValueError)))"

text \<open>
  The name of the column one window function adds for one value column, when it adds
  one; and the names of a whole call, in the order of the two loops.
\<close>

definition new_column_name :: "'v engines \<Rightarrow> int \<Rightarrow> string \<Rightarrow> 'v pyobj \<Rightarrow> string option" where
  "new_column_name P min_periods col func =
     (case func of
        PStr name \<Rightarrow>
          Some (if name = ''quantile'' then col @ ''_expanding_quantile_50''
                else col @ ''_expanding_'' @ name)
      | PTuple items \<Rightarrow>
          if length items \<noteq> 2 then None
          else
          (case items ! 0 of
             PStr user_func_name \<Rightarrow>
               (case items ! 1 of
                  PFunction n f \<Rightarrow> Some (col @ ''_expanding_'' @ user_func_name)
                | PTuple conf \<Rightarrow>
                    if length conf \<noteq> 4 then None
                    else
                    (case conf ! 1 of
                       PStr func_name \<Rightarrow>
                         (case expanding_attr P min_periods func_name of
                            None \<Rightarrow> None
                          | Some expanding_function \<Rightarrow> Some (col @ ''_expanding_'' @ user_func_name))
                     | _ \<Rightarrow> None)
                | _ \<Rightarrow> None)
           | _ \<Rightarrow> None)
      | _ \<Rightarrow> None)"

definition new_column_names ::
  "'v engines \<Rightarrow> int \<Rightarrow> string list \<Rightarrow> 'v pyobj list \<Rightarrow> string list" where
  "new_column_names P min_periods value_column window_func =
     concat (map (\<lambda>col. concat (map (\<lambda>func. case new_column_name P min_periods col func of
                                               None \<Rightarrow> [] | Some name \<Rightarrow> [name])
                                     window_func))
                 value_column)"

text \<open>The names a call of \<open>augment_expanding\<close> adds, from its arguments as they are passed.\<close>

definition added_columns ::
  "'v engines \<Rightarrow> string + string list \<Rightarrow> 'v pyobj \<Rightarrow> int option \<Rightarrow> string list" where
  "added_columns P value_column window_func min_periods =
     new_column_names P (case min_periods of None \<Rightarrow> 1 | Some n \<Rightarrow> n)
       (case value_column of Inl name \<Rightarrow> [name] | Inr names \<Rightarrow> names)
       (case iterate (as_list window_func) of Inl e \<Rightarrow> [] | Inr funcs \<Rightarrow> funcs)"

text \<open>
  A row, and a table row by row, after the columns \<open>names\<close> have been assigned one after
  the other: the same label, the column names extended, every other cell as it was.
\<close>

definition row_extends :: "string list \<Rightarrow> xrow \<Rightarrow> xrow \<Rightarrow> bool" where
  "row_extends names r r' \<longleftrightarrow>
     label r' = label r \<and>
     map fst (cells r') = foldl (\<lambda>cs n. assign n cs) (map fst (cells r)) names \<and>
     (\<forall>c. c \<notin> set names \<longrightarrow> map_of (cells r') c = map_of (cells r) c)"

definition frame_extends :: "string list \<Rightarrow> xrow frame \<Rightarrow> xrow frame \<Rightarrow> bool" where
  "frame_extends names df df' \<longleftrightarrow>
     columns df' = foldl (\<lambda>cs n. assign n cs) (columns df) names \<and>
     list_all2 (row_extends names) (rows df) (rows df')"

subsection \<open>Concrete inputs\<close>

text \<open>
  An environment for worked examples, with timestamps numbered \<open>0, 1, 2, ...\<close>. At
  period 1 the moving average of the classical decomposition has window 1: the trend is
  the series itself and the seasonal component is zero everywhere.
\<close>

definition unit_env :: "nat env" where
  "unit_env = \<lparr> get_seasonal_frequency = (\<lambda>ds. 1),
                 get_trend_frequency = (\<lambda>ds. length ds),
                 components = (\<lambda>x p m. Inr (replicate (length x) 0, x)),
                 cpu_count = 4 \<rparr>"

definition default_config :: config where
  "default_config =
     \<lparr> period = None, config.trend = None, method_name = ''twitter'', decomp = ''additive'',
       clean = ''min_max'', iqr_alpha = 5 / 100, clean_alpha = 75 / 100,
       max_anomalies = 2 / 10, bind_data = False, threads = 1 \<rparr>"

text \<open>Four points on a line, five points of which two lie far below the rest, the same
  with the last point above the rest, and five points with a spike up and a spike down.\<close>

definition ramp_frame :: "(nat \<times> real) frame" where
  "ramp_frame = \<lparr> columns = [''date'', ''value''], rows = [(0, 1), (1, 2), (2, 3), (3, 4)] \<rparr>"

definition skewed_frame :: "(nat \<times> real) frame" where
  "skewed_frame = \<lparr> columns = [''date'', ''value''],
                     rows = [(0, -10), (1, -10), (2, 0), (3, 0), (4, 0)] \<rparr>"

definition crossed_frame :: "(nat \<times> real) frame" where
  "crossed_frame = \<lparr> columns = [''date'', ''value''],
                      rows = [(0, -10), (1, -10), (2, 0), (3, 0), (4, 5)] \<rparr>"

definition spike_frame :: "(nat \<times> real) frame" where
  "spike_frame = \<lparr> columns = [''date'', ''value''],
                    rows = [(0, 1), (1, 2), (2, 40), (3, 1), (4, -40)] \<rparr>"

text \<open>
  Configurations: period 1 with one median block over the whole series; the same with
  the classical decomposition; with an alpha of 0.9; with two median blocks; with a period
  as long as the series; with \<open>clean_alpha = 0\<close>; with \<open>bind_data\<close>.
\<close>

definition one_block_config :: config where
  "one_block_config = default_config \<lparr> period := Some 1, config.trend := Some 5 \<rparr>"

definition classical_config :: config where
  "classical_config = one_block_config \<lparr> method_name := ''seasonal_decompose'' \<rparr>"

definition wide_alpha_config :: config where
  "wide_alpha_config =
     default_config \<lparr> period := Some 1, config.trend := Some 5, iqr_alpha := 9 / 10 \<rparr>"

definition two_block_config :: config where
  "two_block_config = default_config \<lparr> period := Some 1, config.trend := Some 2 \<rparr>"

definition long_period_config :: config where
  "long_period_config = default_config \<lparr> period := Some 5, config.trend := Some 5 \<rparr>"


definition bind_config :: config where
  "bind_config = one_block_config \<lparr> bind_data := True \<rparr>"

text \<open>A table grouped by a column \<open>id\<close>, with two groups.\<close>

definition two_groups :: "(nat, nat) data" where
  "two_groups =
     DataFrameGroupBy [''id''] [''id'', ''date'', ''value'']
       [([1], rows spike_frame), ([2], rows skewed_frame)]"

definition plain_table :: "(nat, nat) data" where
  "plain_table = DataFrame spike_frame"

text \<open>
  An engine for worked examples of \<open>augment_expanding\<close>, for columns of numbers and
  \<open>min_periods = 1\<close>: the window of a row is the values of the column up to that row; the
  expanding window has the attributes \<open>max\<close> and \<open>sum\<close> and no other, and its quantile
  is known at one half, where it is the median.
\<close>

definition windows :: "cell list \<Rightarrow> real list list" where
  "windows xs =
     map (\<lambda>i. concat (map (\<lambda>c. case c of Num x \<Rightarrow> [x] | _ \<Rightarrow> []) (take (Suc i) xs)))
         [0..<length xs]"

definition example_engines :: "unit engines" where
  "example_engines =
     \<lparr> expanding_apply = (\<lambda>min_periods f xs. Inr (map (\<lambda>w. Num (f w)) (windows xs))),
       expanding_quantile =
         (\<lambda>min_periods q xs. if q = 1 / 2 then Inr (map (\<lambda>w. Num (median w)) (windows xs))
                               else Inl ValueError),
       expanding_attr =
         (\<lambda>min_periods name.
            if name = ''max''
            then Some (\<lambda>kw xs. Inr (map (\<lambda>w. Num (fold max w (hd w))) (windows xs)))
            else if name = ''sum''
            then Some (\<lambda>kw xs. Inr (map (\<lambda>w. Num (sum_list w)) (windows xs)))
            else None),
       polars_engine = (\<lambda>data date_column value_column window_func min_periods. Inl Exception) \<rparr>"

text \<open>
  A table of two series \<open>a\<close> and \<open>b\<close> with the index \<open>0, 1, 2, 3\<close>, its rows not in the
  order of the dates; and a table of two rows with the index \<open>1, 0\<close>.
\<close>

definition series_table :: "xrow frame" where
  "series_table =
     \<lparr> columns = [''id'', ''date'', ''value''],
       rows = [ \<lparr> label = 0, cells = [(''id'', Str ''b''), (''date'', Num 2), (''value'', Num 5)] \<rparr>,
                \<lparr> label = 1, cells = [(''id'', Str ''a''), (''date'', Num 1), (''value'', Num 3)] \<rparr>,
                \<lparr> label = 2, cells = [(''id'', Str ''b''), (''date'', Num 1), (''value'', Num 7)] \<rparr>,
                \<lparr> label = 3, cells = [(''id'', Str ''a''), (''date'', Num 2), (''value'', Num 1)] \<rparr> ] \<rparr>"

definition shuffled_table :: "xrow frame" where
  "shuffled_table =
     \<lparr> columns = [''date'', ''value''],
       rows = [ \<lparr> label = 1, cells = [(''date'', Num 1), (''value'', Num 5)] \<rparr>,
                \<lparr> label = 0, cells = [(''date'', Num 2), (''value'', Num 3)] \<rparr> ] \<rparr>"

definition three_functions :: "unit pyobj" where
  "three_functions =
     PList [PStr ''max'', PStr ''quantile'', PTuple [PStr ''total'', PFunction 1 sum_list]]"

section \<open>Properties of the anomaly pipeline\<close>

subsection \<open>The outlier classifier\<close>

lemma np_percentile_Some: "xs \<noteq> [] \<Longrightarrow> \<exists>v. np_percentile xs q = Some v"
  by (simp add: np_percentile_def Let_def)

lemma np_percentile_None: "np_percentile [] q = None"
  by (simp add: np_percentile_def)

lemma p_iqr_unfold:
  assumes "alpha \<noteq> 0" and "np_percentile xs 25 = Some q1" and "np_percentile xs 75 = Some q3"
  shows "p_iqr xs alpha m =
           Inr (map (\<lambda>x.
                  \<lparr> outlier_reported =
                       (if x > q3 + (0.15 / alpha) * (q3 - q1) then ''Yes''
                        else if x < - (q1 + (0.15 / alpha) * (q3 - q1)) then ''Yes'' else ''No''),
                     direction = (if x > q3 + (0.15 / alpha) * (q3 - q1) then 1
                                  else if x < - (q1 + (0.15 / alpha) * (q3 - q1)) then -1 else 0),
                     score = \<bar>x - (- (q1 + (0.15 / alpha) * (q3 - q1))
                                     + (q3 + (0.15 / alpha) * (q3 - q1))) / 2\<bar>,
                     remainder_l1 = - (q1 + (0.15 / alpha) * (q3 - q1)),
                     remainder_l2 = q3 + (0.15 / alpha) * (q3 - q1) \<rparr>) xs)"
  using assms by (simp add: p_iqr_def Let_def)

lemma p_iqr_length: "p_iqr xs alpha m = Inr ou \<Longrightarrow> length ou = length xs"
  using np_percentile_Some [of xs 25] np_percentile_Some [of xs 75]
  by (cases "xs = []")
     (auto simp: p_iqr_def Let_def np_percentile_None split: if_splits option.splits)

text \<open>
  C1. For a non-empty remainder column and alpha in (0,1), \<open>_iqr\<close> takes Q1 and Q3 to be
  the 25th and 75th percentile (linear interpolation) of the column, and every row it
  returns carries the same two constants: \<open>remainder_l1 = -(Q1 + (0.15/alpha) (Q3 - Q1))\<close>,
  the whole bracket negated, and \<open>remainder_l2 = Q3 + (0.15/alpha) (Q3 - Q1)\<close>.
\<close>

theorem iqr_fences:
  assumes "xs \<noteq> []" and "0 < alpha" and "alpha < 1"
  shows "\<exists>q1 q3 ou.
           np_percentile xs 25 = Some q1 \<and> np_percentile xs 75 = Some q3 \<and>
           p_iqr xs alpha m = Inr ou \<and> length ou = length xs \<and>
           (\<forall>r \<in> set ou. remainder_l1 r = - (q1 + (0.15 / alpha) * (q3 - q1)) \<and>
                          remainder_l2 r = q3 + (0.15 / alpha) * (q3 - q1))"
proof -
  obtain q1 where q1: "np_percentile xs 25 = Some q1"
    using assms(1) np_percentile_Some by blast
  obtain q3 where q3: "np_percentile xs 75 = Some q3"
    using assms(1) np_percentile_Some by blast
  have a: "alpha \<noteq> 0" using assms(2) by simp
  show ?thesis
    unfolding p_iqr_unfold [OF a q1 q3] using q1 q3 by auto
qed

theorem iqr_fences_witness:
  "[1, 2, 3, 4 :: real] \<noteq> [] \<and> (0 :: real) < 5 / 100 \<and> (5 / 100 :: real) < 1 \<and>
   np_percentile [1, 2, 3, 4] 25 = Some (7 / 4) \<and>
   np_percentile [1, 2, 3, 4] 75 = Some (13 / 4) \<and>
   map remainder_l1 (projr (p_iqr [1, 2, 3, 4] (5 / 100) (2 / 10)))
     = [- (25 / 4), - (25 / 4), - (25 / 4), - (25 / 4)] \<and>
   map remainder_l2 (projr (p_iqr [1, 2, 3, 4] (5 / 100) (2 / 10)))
     = [31 / 4, 31 / 4, 31 / 4, 31 / 4]"
proof -
  have h: "[1, 2, 3, 4 :: real] \<noteq> []" "(0 :: real) < 5 / 100" "(5 / 100 :: real) < 1"
    by simp_all
  have q1: "np_percentile [1, 2, 3, 4] 25 = Some (7 / 4)"
    by code_simp
  have q3: "np_percentile [1, 2, 3, 4] 75 = Some (13 / 4)"
    by code_simp
  have l1: "map remainder_l1 (projr (p_iqr [1, 2, 3, 4] (5 / 100) (2 / 10)))
              = [- (25 / 4), - (25 / 4), - (25 / 4), - (25 / 4)]"
    by code_simp
  have l2: "map remainder_l2 (projr (p_iqr [1, 2, 3, 4] (5 / 100) (2 / 10)))
              = [31 / 4, 31 / 4, 31 / 4, 31 / 4]"
    by code_simp
  from iqr_fences [OF h, of "2 / 10"] have "\<exists>ou. p_iqr [1, 2, 3, 4] (5 / 100) (2 / 10) = Inr ou"
    by blast
  then show ?thesis
    using h q1 q3 l1 l2 by blast
qed

subsection \<open>The rows of \<open>_anomalize\<close>\<close>

lemma length_interpolate_linear: "length (interpolate_linear col) = length col"
  by (simp add: interpolate_linear_def Let_def)

lemma length_decomposition_rows_le:
  "length (decomposition_rows ds obs seas sadj trnd resid) \<le> length ds"
  by (simp add: decomposition_rows_def)

lemma decomposition_rows_nth:
  assumes "i < length (decomposition_rows ds obs seas sadj trnd resid)"
  shows "decomposition_rows ds obs seas sadj trnd resid ! i =
           \<lparr> date = ds ! i, observed = obs ! i, seasonal = seas ! i, seasadj = sadj ! i,
             trend = trnd ! i, remainder = resid ! i \<rparr>"
  using assms by (simp add: decomposition_rows_def)

lemma decomposition_length:
  assumes "decomposition E data dc vc cfg = Inr result"
  shows "length (rows result) \<le> length (rows data)"
  using assms length_decomposition_rows_le [of "map fst (rows data)"]
  by (auto simp: decomposition_def p_twitter_decompose_def p_seasonal_decompose_def Let_def
           split: if_splits sum.splits prod.splits option.splits)

lemma anomaly_rows_length:
  assumes "length anom = length result" "length sc = length result" "length dir = length result"
    "length l1 = length result" "length l2 = length result" "length cleaned = length result"
  shows "length (anomaly_rows result anom sc dir l1 l2 cleaned) = length result"
  using assms by (simp add: anomaly_rows_def)

lemma anomaly_rows_nth:
  assumes "length anom = length result" "length sc = length result" "length dir = length result"
    "length l1 = length result" "length l2 = length result" "length cleaned = length result"
    and "i < length result"
  shows "anomaly_rows result anom sc dir l1 l2 cleaned ! i =
           \<lparr> date = date (result ! i), observed = observed (result ! i),
             seasonal = seasonal (result ! i), seasadj = seasadj (result ! i),
             trend = trend (result ! i), remainder = remainder (result ! i),
             anomaly = Val (anom ! i), anomaly_score = Val (sc ! i),
             anomaly_direction = Val (dir ! i), recomposed_l1 = Val (l1 ! i),
             recomposed_l2 = Val (l2 ! i), observed_clean = Val (cleaned ! i) \<rparr>"
  using assms by (simp add: anomaly_rows_def)

text \<open>
  The assignment of the timestamps leaves the decomposition columns alone, and the columns
  of steps 3 and 4 too unless \<open>date_column\<close> names one of them.
\<close>

lemma set_date_column_decomposition:
  "observed (set_date_column name d r) = observed r"
  "seasonal (set_date_column name d r) = seasonal r"
  "seasadj (set_date_column name d r) = seasadj r"
  "trend (set_date_column name d r) = trend r"
  "remainder (set_date_column name d r) = remainder r"
  "date (set_date_column name d r) = d"
  by (simp_all add: set_date_column_def Let_def)

lemma set_date_column_other:
  "name \<notin> set anomaly_columns \<Longrightarrow> set_date_column name d r = r \<lparr> date := d \<rparr>"
  by (simp add: set_date_column_def anomaly_columns_def Let_def)

text \<open>
  What a run of \<open>_anomalize\<close> that returns has computed: the decomposition, the table of
  \<open>_iqr\<close> on its remainder column, and row by row the columns of steps 3 and 4.
\<close>

lemma p_anomalize_cases:
  assumes "p_anomalize E data dc vc cfg = Inr out"
  obtains result ou where
    "decomposition E data dc vc cfg = Inr result"
    "p_iqr (map remainder (rows result)) (iqr_alpha cfg) (max_anomalies cfg) = Inr ou"
    "length ou = length (rows result)"
    "length (rows out) = length (rows result)"
    "\<And>i. i < length (rows result) \<Longrightarrow>
       observed (rows out ! i) = observed (rows result ! i) \<and>
       seasonal (rows out ! i) = seasonal (rows result ! i) \<and>
       seasadj (rows out ! i) = seasadj (rows result ! i) \<and>
       trend (rows out ! i) = trend (rows result ! i) \<and>
       remainder (rows out ! i) = remainder (rows result ! i)"
    "\<And>i. i < length (rows result) \<Longrightarrow> dc \<notin> set anomaly_columns \<Longrightarrow>
       anomaly (rows out ! i) = Val (outlier_reported (ou ! i)) \<and>
       anomaly_score (rows out ! i) = Val (score (ou ! i)) \<and>
       anomaly_direction (rows out ! i) = Val (direction (ou ! i))"
    "\<And>i. i < length (rows result) \<Longrightarrow> dc \<notin> set anomaly_columns \<Longrightarrow>
       recomposed_l1 (rows out ! i) =
         Val (seasonal (rows result ! i) + trend (rows result ! i) + remainder_l1 (ou ! i)) \<and>
       recomposed_l2 (rows out ! i) =
         Val (seasonal (rows result ! i) + trend (rows result ! i) + remainder_l2 (ou ! i))"
    "\<And>i. i < length (rows result) \<Longrightarrow> dc \<notin> set anomaly_columns \<Longrightarrow>
       clean cfg \<noteq> ''linear'' \<Longrightarrow>
       observed_clean (rows out ! i) =
         Val (if direction (ou ! i) = -1
              then Some (clean_alpha cfg * (seasonal (rows result ! i)
                           + trend (rows result ! i) + remainder_l1 (ou ! i)))
              else if direction (ou ! i) = 1
              then Some (clean_alpha cfg * (seasonal (rows result ! i)
                           + trend (rows result ! i) + remainder_l2 (ou ! i)))
              else Some (observed (rows result ! i)))"
proof -
  from assms obtain result where res: "decomposition E data dc vc cfg = Inr result"
    by (auto simp: p_anomalize_def decomposition_def Let_def split: sum.splits)
  from assms res obtain ou where
    ou: "p_iqr (map remainder (rows result)) (iqr_alpha cfg) (max_anomalies cfg) = Inr ou"
    by (auto simp: p_anomalize_def decomposition_def Let_def split: sum.splits)
  have len_ou: "length ou = length (rows result)"
    using p_iqr_length [OF ou] by simp
  have len_res: "length (rows result) \<le> length (rows data)"
    by (rule decomposition_length [OF res])
  define anom where "anom = map outlier_reported ou"
  define sc where "sc = map score ou"
  define dir where "dir = map direction ou"
  define l1 where
    "l1 = map (\<lambda>(r, ou). seasonal r + trend r + remainder_l1 ou) (zip (rows result) ou)"
  define l2 where
    "l2 = map (\<lambda>(r, ou). seasonal r + trend r + remainder_l2 ou) (zip (rows result) ou)"
  define cleaned where "cleaned =
     (if clean cfg = ''linear'' then
        interpolate_linear
          (map (\<lambda>(r, a). if a = ''No'' then Some (observed r) else None) (zip (rows result) anom))
      else
        map (\<lambda>(r, d, lo, hi).
               if d = -1 then Some (clean_alpha cfg * lo)
               else if d = 1 then Some (clean_alpha cfg * hi)
               else Some (observed r))
            (zip (rows result) (zip dir (zip l1 l2))))"
  have out: "rows out = map (\<lambda>(r, d). set_date_column dc d r)
                 (zip (anomaly_rows (rows result) anom sc dir l1 l2 cleaned) (map fst (rows data)))"
    using assms res ou
    by (auto simp: p_anomalize_def decomposition_def Let_def anom_def sc_def dir_def l1_def
          l2_def cleaned_def split: sum.splits if_splits)
  have lens: "length anom = length (rows result)" "length sc = length (rows result)"
    "length dir = length (rows result)" "length l1 = length (rows result)"
    "length l2 = length (rows result)" "length cleaned = length (rows result)"
    using len_ou
    by (simp_all add: anom_def sc_def dir_def l1_def l2_def cleaned_def length_interpolate_linear)
  have len_ar: "length (anomaly_rows (rows result) anom sc dir l1 l2 cleaned) = length (rows result)"
    by (rule anomaly_rows_length [OF lens])
  have len_out: "length (rows out) = length (rows result)"
    using len_ar len_res by (simp add: out)
  have nth: "rows out ! i =
               set_date_column dc (fst (rows data ! i))
                 (anomaly_rows (rows result) anom sc dir l1 l2 cleaned ! i)"
    if "i < length (rows result)" for i
    using that len_ar len_res by (simp add: out)
  have cl: "cleaned ! i =
              (if direction (ou ! i) = -1
               then Some (clean_alpha cfg * (seasonal (rows result ! i)
                            + trend (rows result ! i) + remainder_l1 (ou ! i)))
               else if direction (ou ! i) = 1
               then Some (clean_alpha cfg * (seasonal (rows result ! i)
                            + trend (rows result ! i) + remainder_l2 (ou ! i)))
               else Some (observed (rows result ! i)))"
    if "i < length (rows result)" "clean cfg \<noteq> ''linear''" for i
    using that len_ou by (simp add: cleaned_def dir_def l1_def l2_def)
  have dec_fields: "observed (rows out ! i) = observed (rows result ! i) \<and>
       seasonal (rows out ! i) = seasonal (rows result ! i) \<and>
       seasadj (rows out ! i) = seasadj (rows result ! i) \<and>
       trend (rows out ! i) = trend (rows result ! i) \<and>
       remainder (rows out ! i) = remainder (rows result ! i)"
    if "i < length (rows result)" for i
    unfolding nth [OF that] set_date_column_decomposition anomaly_rows_nth [OF lens that]
    by simp
  have all_fields: "rows out ! i =
      \<lparr> date = fst (rows data ! i), observed = observed (rows result ! i),
        seasonal = seasonal (rows result ! i), seasadj = seasadj (rows result ! i),
        trend = trend (rows result ! i), remainder = remainder (rows result ! i),
        anomaly = Val (anom ! i), anomaly_score = Val (sc ! i),
        anomaly_direction = Val (dir ! i), recomposed_l1 = Val (l1 ! i),
        recomposed_l2 = Val (l2 ! i), observed_clean = Val (cleaned ! i) \<rparr>"
    if "i < length (rows result)" "dc \<notin> set anomaly_columns" for i
    unfolding nth [OF that(1)] set_date_column_other [OF that(2)]
      anomaly_rows_nth [OF lens that(1)] by simp
  show thesis
  proof (rule that [of result ou])
    show "decomposition E data dc vc cfg = Inr result" by (rule res)
    show "p_iqr (map remainder (rows result)) (iqr_alpha cfg) (max_anomalies cfg) = Inr ou"
      by (rule ou)
    show "length ou = length (rows result)" by (rule len_ou)
    show "length (rows out) = length (rows result)" by (rule len_out)
  next
    fix i assume i: "i < length (rows result)"
    show "observed (rows out ! i) = observed (rows result ! i) \<and>
       seasonal (rows out ! i) = seasonal (rows result ! i) \<and>
       seasadj (rows out ! i) = seasadj (rows result ! i) \<and>
       trend (rows out ! i) = trend (rows result ! i) \<and>
       remainder (rows out ! i) = remainder (rows result ! i)"
      by (rule dec_fields [OF i])
  next
    fix i assume i: "i < length (rows result)" and g: "dc \<notin> set anomaly_columns"
    show "anomaly (rows out ! i) = Val (outlier_reported (ou ! i)) \<and>
       anomaly_score (rows out ! i) = Val (score (ou ! i)) \<and>
       anomaly_direction (rows out ! i) = Val (direction (ou ! i))"
      using i len_ou by (simp add: all_fields [OF i g] anom_def sc_def dir_def)
    show "recomposed_l1 (rows out ! i) =
         Val (seasonal (rows result ! i) + trend (rows result ! i) + remainder_l1 (ou ! i)) \<and>
       recomposed_l2 (rows out ! i) =
         Val (seasonal (rows result ! i) + trend (rows result ! i) + remainder_l2 (ou ! i))"
      using i len_ou by (simp add: all_fields [OF i g] l1_def l2_def)
  next
    fix i assume i: "i < length (rows result)" and g: "dc \<notin> set anomaly_columns"
      and nl: "clean cfg \<noteq> ''linear''"
    show "observed_clean (rows out ! i) =
         Val (if direction (ou ! i) = -1
              then Some (clean_alpha cfg * (seasonal (rows result ! i)
                           + trend (rows result ! i) + remainder_l1 (ou ! i)))
              else if direction (ou ! i) = 1
              then Some (clean_alpha cfg * (seasonal (rows result ! i)
                           + trend (rows result ! i) + remainder_l2 (ou ! i)))
              else Some (observed (rows result ! i)))"
      unfolding cl [OF i nl, symmetric] by (simp add: all_fields [OF i g])
  qed
qed

subsection \<open>Worked runs\<close>

text \<open>
  The pipeline evaluated on the concrete inputs, once each; the examples below read their
  values off these tables.
\<close>

lemma spike_run:
  "p_anomalize unit_env spike_frame ''date'' ''value'' one_block_config =
     Inr \<lparr>columns = [''date'', ''observed'', ''seasonal'', ''seasadj'', ''trend'',
       ''remainder'', ''anomaly'', ''anomaly_score'', ''anomaly_direction'', ''recomposed_l1'',
       ''recomposed_l2'', ''observed_clean''],
             rows = [
              \<lparr>date = 0, observed = 1, seasonal = 0, seasadj = 1, trend = 1,
                remainder = 0, anomaly = Val ''No'', anomaly_score = Val (1 / 2),
                anomaly_direction = Val 0,
                recomposed_l1 = Val (- 2), recomposed_l2 = Val 5,
                observed_clean = Val (Some 1)\<rparr>,
              \<lparr>date = 1, observed = 2, seasonal = 0, seasadj = 2, trend = 1,
                remainder = 1, anomaly = Val ''No'', anomaly_score = Val (1 / 2),
                anomaly_direction = Val 0,
                recomposed_l1 = Val (- 2), recomposed_l2 = Val 5,
                observed_clean = Val (Some 2)\<rparr>,
              \<lparr>date = 2, observed = 40, seasonal = 0, seasadj = 40, trend = 1,
                remainder = 39, anomaly = Val ''Yes'', anomaly_score = Val (77 / 2),
                anomaly_direction = Val 1, recomposed_l1 = Val (- 2), recomposed_l2 = Val 5,
                observed_clean = Val (Some (15 / 4))\<rparr>,
              \<lparr>date = 3, observed = 1, seasonal = 0, seasadj = 1, trend = 1,
                remainder = 0, anomaly = Val ''No'', anomaly_score = Val (1 / 2),
                anomaly_direction = Val 0,
                recomposed_l1 = Val (- 2), recomposed_l2 = Val 5,
                observed_clean = Val (Some 1)\<rparr>,
              \<lparr>date = 4, observed = - 40, seasonal = 0, seasadj = - 40, trend = 1,
                remainder = - 41, anomaly = Val ''Yes'', anomaly_score = Val (83 / 2),
                anomaly_direction = Val (- 1), recomposed_l1 = Val (- 2), recomposed_l2 = Val 5,
                observed_clean = Val (Some (- (3 / 2)))\<rparr>]\<rparr>"
  by code_simp

lemma classical_run:
  "p_anomalize unit_env spike_frame ''date'' ''value'' classical_config =
     Inr \<lparr>columns = [''date'', ''observed'', ''seasonal'', ''seasadj'', ''trend'',
       ''remainder'', ''anomaly'', ''anomaly_score'', ''anomaly_direction'', ''recomposed_l1'',
       ''recomposed_l2'', ''observed_clean''],
             rows = [
              \<lparr>date = 0, observed = 1, seasonal = 0, seasadj = 1, trend = 1,
                remainder = 0, anomaly = Val ''No'', anomaly_score = Val 0,
                anomaly_direction = Val 0,
                recomposed_l1 = Val 1, recomposed_l2 = Val 1,
                observed_clean = Val (Some 1)\<rparr>,
              \<lparr>date = 1, observed = 2, seasonal = 0, seasadj = 2, trend = 2,
                remainder = 0, anomaly = Val ''No'', anomaly_score = Val 0,
                anomaly_direction = Val 0,
                recomposed_l1 = Val 2, recomposed_l2 = Val 2,
                observed_clean = Val (Some 2)\<rparr>,
              \<lparr>date = 2, observed = 40, seasonal = 0, seasadj = 40, trend = 40,
                remainder = 0, anomaly = Val ''No'', anomaly_score = Val 0,
                anomaly_direction = Val 0,
                recomposed_l1 = Val 40, recomposed_l2 = Val 40,
                observed_clean = Val (Some 40)\<rparr>,
              \<lparr>date = 3, observed = 1, seasonal = 0, seasadj = 1, trend = 1,
                remainder = 0, anomaly = Val ''No'', anomaly_score = Val 0,
                anomaly_direction = Val 0,
                recomposed_l1 = Val 1, recomposed_l2 = Val 1,
                observed_clean = Val (Some 1)\<rparr>,
              \<lparr>date = 4, observed = - 40, seasonal = 0, seasadj = - 40, trend = - 40,
                remainder = 0, anomaly = Val ''No'', anomaly_score = Val 0,
                anomaly_direction = Val 0,
                recomposed_l1 = Val (- 40), recomposed_l2 = Val (- 40),
                observed_clean = Val (Some (- 40))\<rparr>]\<rparr>"
  by code_simp


lemma skewed_run:
  "p_anomalize unit_env skewed_frame ''date'' ''value'' wide_alpha_config =
     Inr \<lparr>columns = [''date'', ''observed'', ''seasonal'', ''seasadj'', ''trend'',
       ''remainder'', ''anomaly'', ''anomaly_score'', ''anomaly_direction'', ''recomposed_l1'',
       ''recomposed_l2'', ''observed_clean''],
             rows = [
              \<lparr>date = 0, observed = - 10, seasonal = 0, seasadj = - 10, trend = 0,
                remainder = - 10, anomaly = Val ''Yes'', anomaly_score = Val 15,
                anomaly_direction = Val (- 1), recomposed_l1 = Val (25 / 3),
                recomposed_l2 = Val (5 / 3),
                observed_clean = Val (Some (25 / 4))\<rparr>,
              \<lparr>date = 1, observed = - 10, seasonal = 0, seasadj = - 10, trend = 0,
                remainder = - 10, anomaly = Val ''Yes'', anomaly_score = Val 15,
                anomaly_direction = Val (- 1), recomposed_l1 = Val (25 / 3),
                recomposed_l2 = Val (5 / 3),
                observed_clean = Val (Some (25 / 4))\<rparr>,
              \<lparr>date = 2, observed = 0, seasonal = 0, seasadj = 0, trend = 0,
                remainder = 0, anomaly = Val ''Yes'', anomaly_score = Val 5,
                anomaly_direction = Val (- 1),
                recomposed_l1 = Val (25 / 3), recomposed_l2 = Val (5 / 3),
                observed_clean = Val (Some (25 / 4))\<rparr>,
              \<lparr>date = 3, observed = 0, seasonal = 0, seasadj = 0, trend = 0,
                remainder = 0, anomaly = Val ''Yes'', anomaly_score = Val 5,
                anomaly_direction = Val (- 1),
                recomposed_l1 = Val (25 / 3), recomposed_l2 = Val (5 / 3),
                observed_clean = Val (Some (25 / 4))\<rparr>,
              \<lparr>date = 4, observed = 0, seasonal = 0, seasadj = 0, trend = 0,
                remainder = 0, anomaly = Val ''Yes'', anomaly_score = Val 5,
                anomaly_direction = Val (- 1),
                recomposed_l1 = Val (25 / 3), recomposed_l2 = Val (5 / 3),
                observed_clean = Val (Some (25 / 4))\<rparr>]\<rparr>"
  by code_simp

lemma ramp_run:
  "p_anomalize unit_env ramp_frame ''date'' ''value'' two_block_config =
     Inr \<lparr>columns = [''date'', ''observed'', ''seasonal'', ''seasadj'', ''trend'',
       ''remainder'', ''anomaly'', ''anomaly_score'', ''anomaly_direction'', ''recomposed_l1'',
       ''recomposed_l2'', ''observed_clean''],
             rows = [
              \<lparr>date = 0, observed = 1, seasonal = 0, seasadj = 1, trend = 3 / 2,
                remainder = - (1 / 2), anomaly = Val ''No'', anomaly_score = Val 1,
                anomaly_direction = Val 0, recomposed_l1 = Val (- 1), recomposed_l2 = Val 5,
                observed_clean = Val (Some 1)\<rparr>,
              \<lparr>date = 1, observed = 2, seasonal = 0, seasadj = 2, trend = 3 / 2,
                remainder = 1 / 2, anomaly = Val ''No'', anomaly_score = Val 0,
                anomaly_direction = Val 0,
                recomposed_l1 = Val (- 1), recomposed_l2 = Val 5,
                observed_clean = Val (Some 2)\<rparr>,
              \<lparr>date = 2, observed = 3, seasonal = 0, seasadj = 3, trend = 7 / 2,
                remainder = - (1 / 2), anomaly = Val ''No'', anomaly_score = Val 1,
                anomaly_direction = Val 0, recomposed_l1 = Val 1, recomposed_l2 = Val 7,
                observed_clean = Val (Some 3)\<rparr>,
              \<lparr>date = 3, observed = 4, seasonal = 0, seasadj = 4, trend = 7 / 2,
                remainder = 1 / 2, anomaly = Val ''No'', anomaly_score = Val 0,
                anomaly_direction = Val 0,
                recomposed_l1 = Val 1, recomposed_l2 = Val 7,
                observed_clean = Val (Some 4)\<rparr>]\<rparr>"
  by code_simp

lemma p_iqr_nth:
  assumes "p_iqr xs alpha m = Inr ou" and "i < length xs"
  shows "score (ou ! i) = \<bar>xs ! i - (remainder_l1 (ou ! i) + remainder_l2 (ou ! i)) / 2\<bar>"
    and "outlier_reported (ou ! i) =
           (if xs ! i > remainder_l2 (ou ! i) then ''Yes''
            else if xs ! i < remainder_l1 (ou ! i) then ''Yes'' else ''No'')"
    and "direction (ou ! i) =
           (if xs ! i > remainder_l2 (ou ! i) then 1
            else if xs ! i < remainder_l1 (ou ! i) then -1 else 0)"
proof -
  have ne: "xs \<noteq> []" using assms(2) by auto
  obtain q1 where q1: "np_percentile xs 25 = Some q1"
    using ne np_percentile_Some by blast
  obtain q3 where q3: "np_percentile xs 75 = Some q3"
    using ne np_percentile_Some by blast
  have a: "alpha \<noteq> 0"
    using assms(1) by (auto simp: p_iqr_def)
  have ou: "ou = map (\<lambda>x.
                  \<lparr> outlier_reported =
                       (if x > q3 + (0.15 / alpha) * (q3 - q1) then ''Yes''
                        else if x < - (q1 + (0.15 / alpha) * (q3 - q1)) then ''Yes'' else ''No''),
                     direction = (if x > q3 + (0.15 / alpha) * (q3 - q1) then 1
                                  else if x < - (q1 + (0.15 / alpha) * (q3 - q1)) then -1 else 0),
                     score = \<bar>x - (- (q1 + (0.15 / alpha) * (q3 - q1))
                                     + (q3 + (0.15 / alpha) * (q3 - q1))) / 2\<bar>,
                     remainder_l1 = - (q1 + (0.15 / alpha) * (q3 - q1)),
                     remainder_l2 = q3 + (0.15 / alpha) * (q3 - q1) \<rparr>) xs"
    using assms(1) unfolding p_iqr_unfold [OF a q1 q3] by simp
  show "score (ou ! i) = \<bar>xs ! i - (remainder_l1 (ou ! i) + remainder_l2 (ou ! i)) / 2\<bar>"
    using assms(2) by (simp add: ou)
  show "outlier_reported (ou ! i) =
           (if xs ! i > remainder_l2 (ou ! i) then ''Yes''
            else if xs ! i < remainder_l1 (ou ! i) then ''Yes'' else ''No'')"
    using assms(2) by (simp add: ou)
  show "direction (ou ! i) =
           (if xs ! i > remainder_l2 (ou ! i) then 1
            else if xs ! i < remainder_l1 (ou ! i) then -1 else 0)"
    using assms(2) by (simp add: ou)
qed

text \<open>
  The remainder column of the result is the column \<open>_iqr\<close> was run on, and the three
  anomaly columns are the columns of its table.
\<close>

lemma p_anomalize_iqr:
  assumes "p_anomalize E data dc vc cfg = Inr out" and "dc \<notin> set anomaly_columns"
  obtains ou where
    "p_iqr (map remainder (rows out)) (iqr_alpha cfg) (max_anomalies cfg) = Inr ou"
    "length ou = length (rows out)"
    "\<And>i. i < length (rows out) \<Longrightarrow>
       anomaly (rows out ! i) = Val (outlier_reported (ou ! i)) \<and>
       anomaly_score (rows out ! i) = Val (score (ou ! i)) \<and>
       anomaly_direction (rows out ! i) = Val (direction (ou ! i))"
proof (rule p_anomalize_cases [OF assms(1)])
  fix result ou
  assume ou: "p_iqr (map remainder (rows result)) (iqr_alpha cfg) (max_anomalies cfg) = Inr ou"
    and len: "length ou = length (rows result)" "length (rows out) = length (rows result)"
    and dec: "\<And>i. i < length (rows result) \<Longrightarrow>
       observed (rows out ! i) = observed (rows result ! i) \<and>
       seasonal (rows out ! i) = seasonal (rows result ! i) \<and>
       seasadj (rows out ! i) = seasadj (rows result ! i) \<and>
       trend (rows out ! i) = trend (rows result ! i) \<and>
       remainder (rows out ! i) = remainder (rows result ! i)"
    and an: "\<And>i. i < length (rows result) \<Longrightarrow> dc \<notin> set anomaly_columns \<Longrightarrow>
       anomaly (rows out ! i) = Val (outlier_reported (ou ! i)) \<and>
       anomaly_score (rows out ! i) = Val (score (ou ! i)) \<and>
       anomaly_direction (rows out ! i) = Val (direction (ou ! i))"
  have eq: "map remainder (rows out) = map remainder (rows result)"
    using len dec by (intro nth_equalityI) simp_all
  show thesis
  proof (rule that [of ou])
    show "p_iqr (map remainder (rows out)) (iqr_alpha cfg) (max_anomalies cfg) = Inr ou"
      using ou by (simp add: eq)
    show "length ou = length (rows out)" using len by simp
  next
    fix i assume "i < length (rows out)"
    then have i: "i < length (rows result)" using len by simp
    show "anomaly (rows out ! i) = Val (outlier_reported (ou ! i)) \<and>
       anomaly_score (rows out ! i) = Val (score (ou ! i)) \<and>
       anomaly_direction (rows out ! i) = Val (direction (ou ! i))"
      by (rule an [OF i assms(2)])
  qed
qed

text \<open>
  C2, as the code has it. Every row of a result of \<open>_anomalize\<close> (the timestamp column
  not named like a column of steps 3 and 4) mirrors the row of the classifier's table for
  its remainder: with the two fences \<open>remainder_l1\<close> and \<open>remainder_l2\<close> of that table and
  the centerline half their sum, the score is the distance of the remainder from the
  centerline; the flag is "Yes" exactly when the remainder lies above the upper fence or
  below the lower one, and "No" exactly when it lies between the two; the direction is 1
  above the upper fence, otherwise -1 below the lower fence, otherwise 0: the test of the
  upper fence comes first.
\<close>

theorem anomaly_classification:
  assumes "p_anomalize E data dc vc cfg = Inr out" and "dc \<notin> set anomaly_columns"
  shows "\<exists>ou. p_iqr (map remainder (rows out)) (iqr_alpha cfg) (max_anomalies cfg) = Inr ou \<and>
              length ou = length (rows out) \<and>
              (\<forall>i < length (rows out).
                 anomaly (rows out ! i) = Val (outlier_reported (ou ! i)) \<and>
                 anomaly_score (rows out ! i) = Val (score (ou ! i)) \<and>
                 anomaly_direction (rows out ! i) = Val (direction (ou ! i)) \<and>
                 score (ou ! i) =
                   \<bar>remainder (rows out ! i) - (remainder_l1 (ou ! i) + remainder_l2 (ou ! i)) / 2\<bar> \<and>
                 (outlier_reported (ou ! i) = ''Yes'' \<longleftrightarrow>
                    remainder (rows out ! i) > remainder_l2 (ou ! i) \<or>
                    remainder (rows out ! i) < remainder_l1 (ou ! i)) \<and>
                 (outlier_reported (ou ! i) = ''No'' \<longleftrightarrow>
                    remainder_l1 (ou ! i) \<le> remainder (rows out ! i) \<and>
                    remainder (rows out ! i) \<le> remainder_l2 (ou ! i)) \<and>
                 direction (ou ! i) =
                   (if remainder (rows out ! i) > remainder_l2 (ou ! i) then 1
                    else if remainder (rows out ! i) < remainder_l1 (ou ! i) then -1 else 0))"
proof (rule p_anomalize_iqr [OF assms])
  fix ou
  assume ou: "p_iqr (map remainder (rows out)) (iqr_alpha cfg) (max_anomalies cfg) = Inr ou"
    and len: "length ou = length (rows out)"
    and f: "\<And>i. i < length (rows out) \<Longrightarrow>
                 anomaly (rows out ! i) = Val (outlier_reported (ou ! i)) \<and>
                 anomaly_score (rows out ! i) = Val (score (ou ! i)) \<and>
                 anomaly_direction (rows out ! i) = Val (direction (ou ! i))"
  have g: "score (ou ! i) =
             \<bar>remainder (rows out ! i) - (remainder_l1 (ou ! i) + remainder_l2 (ou ! i)) / 2\<bar> \<and>
           (outlier_reported (ou ! i) = ''Yes'' \<longleftrightarrow>
              remainder (rows out ! i) > remainder_l2 (ou ! i) \<or>
              remainder (rows out ! i) < remainder_l1 (ou ! i)) \<and>
           (outlier_reported (ou ! i) = ''No'' \<longleftrightarrow>
              remainder_l1 (ou ! i) \<le> remainder (rows out ! i) \<and>
              remainder (rows out ! i) \<le> remainder_l2 (ou ! i)) \<and>
           direction (ou ! i) =
             (if remainder (rows out ! i) > remainder_l2 (ou ! i) then 1
              else if remainder (rows out ! i) < remainder_l1 (ou ! i) then -1 else 0)"
    if i: "i < length (rows out)" for i
  proof -
    have il: "i < length (map remainder (rows out))" using i by simp
    have x: "map remainder (rows out) ! i = remainder (rows out ! i)" using i by simp
    note p = p_iqr_nth [OF ou il, unfolded x]
    show ?thesis
      unfolding p(2) p(3) using p(1) by (simp add: not_less)
  qed
  show ?thesis
  proof (intro exI [of _ ou] conjI allI impI)
    show "p_iqr (map remainder (rows out)) (iqr_alpha cfg) (max_anomalies cfg) = Inr ou"
      by (rule ou)
    show "length ou = length (rows out)" by (rule len)
  qed (use f g in simp_all)
qed

theorem anomaly_classification_witness:
  "\<not> isl (p_anomalize unit_env spike_frame ''date'' ''value'' one_block_config) \<and>
   ''date'' \<notin> set anomaly_columns \<and>
   map remainder (rows (projr (p_anomalize unit_env spike_frame ''date'' ''value'' one_block_config)))
     = [0, 1, 39, 0, - 41] \<and>
   map remainder_l1 (projr (p_iqr [0, 1, 39, 0, - 41] (5 / 100) (2 / 10))) = [- 3, - 3, - 3, - 3, - 3] \<and>
   map remainder_l2 (projr (p_iqr [0, 1, 39, 0, - 41] (5 / 100) (2 / 10))) = [4, 4, 4, 4, 4] \<and>
   map anomaly (rows (projr (p_anomalize unit_env spike_frame ''date'' ''value'' one_block_config)))
     = [Val ''No'', Val ''No'', Val ''Yes'', Val ''No'', Val ''Yes''] \<and>
   map anomaly_direction
       (rows (projr (p_anomalize unit_env spike_frame ''date'' ''value'' one_block_config)))
     = [Val 0, Val 0, Val 1, Val 0, Val (- 1)] \<and>
   map anomaly_score
       (rows (projr (p_anomalize unit_env spike_frame ''date'' ''value'' one_block_config)))
     = [Val (1 / 2), Val (1 / 2), Val (77 / 2), Val (1 / 2), Val (83 / 2)]"
proof -
  have f: "map remainder_l1 (projr (p_iqr [0, 1, 39, 0, - 41] (5 / 100) (2 / 10)))
             = [- 3, - 3, - 3, - 3, - 3]"
          "map remainder_l2 (projr (p_iqr [0, 1, 39, 0, - 41] (5 / 100) (2 / 10)))
             = [4, 4, 4, 4, 4]"
    by code_simp+
  have d: "''date'' \<notin> set anomaly_columns"
    by (simp add: anomaly_columns_def)
  from anomaly_classification [OF spike_run d]
  have "\<exists>ou. p_iqr [0, 1, 39, 0, - 41] (iqr_alpha one_block_config)
                (max_anomalies one_block_config) = Inr ou"
    by auto
  then show ?thesis
    using f d by (simp add: spike_run)
qed

text \<open>
  C2 as the spec states it fails where the two fences cross: on the remainders
  \<open>-10, -10, 0, 0, 5\<close> with \<open>iqr_alpha = 0.9\<close> the lower fence is \<open>25/3\<close> and the upper
  fence \<open>5/3\<close>; the last row lies below the lower fence, and above the upper one, and its
  direction is 1, not -1.
\<close>

theorem direction_counterexample:
  "remainder_l1 (projr (p_iqr [- 10, - 10, 0, 0, 5] (9 / 10) (2 / 10)) ! 4) = 25 / 3 \<and>
   remainder_l2 (projr (p_iqr [- 10, - 10, 0, 0, 5] (9 / 10) (2 / 10)) ! 4) = 5 / 3 \<and>
   [- 10, - 10, 0, 0, 5 :: real] ! 4 < 25 / 3 \<and>
   direction (projr (p_iqr [- 10, - 10, 0, 0, 5] (9 / 10) (2 / 10)) ! 4) = 1 \<and>
   direction (projr (p_iqr [- 10, - 10, 0, 0, 5] (9 / 10) (2 / 10)) ! 4) \<noteq> - 1 \<and>
   remainder (rows (projr (p_anomalize unit_env crossed_frame ''date'' ''value''
                             wide_alpha_config)) ! 4) = 5 \<and>
   anomaly_direction (rows (projr (p_anomalize unit_env crossed_frame ''date'' ''value''
                                     wide_alpha_config)) ! 4) = Val 1"
proof -
  have a: "remainder_l1 (projr (p_iqr [- 10, - 10, 0, 0, 5] (9 / 10) (2 / 10)) ! 4) = 25 / 3"
    "remainder_l2 (projr (p_iqr [- 10, - 10, 0, 0, 5] (9 / 10) (2 / 10)) ! 4) = 5 / 3"
    "direction (projr (p_iqr [- 10, - 10, 0, 0, 5] (9 / 10) (2 / 10)) ! 4) = 1"
    "remainder (rows (projr (p_anomalize unit_env crossed_frame ''date'' ''value''
                             wide_alpha_config)) ! 4) = 5"
    "anomaly_direction (rows (projr (p_anomalize unit_env crossed_frame ''date'' ''value''
                                     wide_alpha_config)) ! 4) = Val 1"
    by code_simp+
  show ?thesis
    unfolding a by simp
qed



text \<open>
  C6. For either decomposition every row of the result satisfies
  \<open>observed = seasonal + trend + remainder\<close>, with \<open>seasadj = observed - seasonal\<close> and
  \<open>remainder = seasadj - trend\<close>. The code subtracts whatever the model is, so the
  additive model is not needed as a hypothesis.
\<close>

theorem decomposition_identity:
  assumes "p_anomalize E data dc vc cfg = Inr out" and "r \<in> set (rows out)"
  shows "observed r = seasonal r + trend r + remainder r \<and>
         seasadj r = observed r - seasonal r \<and>
         remainder r = seasadj r - trend r"
proof (rule p_anomalize_cases [OF assms(1)])
  fix result ou
  assume res: "decomposition E data dc vc cfg = Inr result"
    and len: "length (rows out) = length (rows result)"
    and dec: "\<And>i. i < length (rows result) \<Longrightarrow>
       observed (rows out ! i) = observed (rows result ! i) \<and>
       seasonal (rows out ! i) = seasonal (rows result ! i) \<and>
       seasadj (rows out ! i) = seasadj (rows result ! i) \<and>
       trend (rows out ! i) = trend (rows result ! i) \<and>
       remainder (rows out ! i) = remainder (rows result ! i)"
  from assms(2) obtain i where i: "i < length (rows out)" "r = rows out ! i"
    by (auto simp: in_set_conv_nth)
  have il: "i < length (rows result)" using i(1) len by simp
  have "seasadj (rows result ! i) = observed (rows result ! i) - seasonal (rows result ! i) \<and>
        remainder (rows result ! i) = seasadj (rows result ! i) - trend (rows result ! i)"
    using res il
    by (auto simp: decomposition_def p_twitter_decompose_def p_seasonal_decompose_def Let_def
          decomposition_rows_def
          split: if_splits sum.splits prod.splits option.splits)
  then show ?thesis
    unfolding i(2) using dec [OF il] by simp
qed

theorem decomposition_identity_witness:
  "\<not> isl (p_anomalize unit_env spike_frame ''date'' ''value'' one_block_config) \<and>
   \<not> isl (p_anomalize unit_env spike_frame ''date'' ''value'' classical_config) \<and>
   decomp one_block_config = ''additive'' \<and> decomp classical_config = ''additive'' \<and>
   map observed (rows (projr (p_anomalize unit_env spike_frame ''date'' ''value'' one_block_config)))
     = [1, 2, 40, 1, - 40] \<and>
   map seasonal (rows (projr (p_anomalize unit_env spike_frame ''date'' ''value'' one_block_config)))
     = [0, 0, 0, 0, 0] \<and>
   map trend (rows (projr (p_anomalize unit_env spike_frame ''date'' ''value'' one_block_config)))
     = [1, 1, 1, 1, 1] \<and>
   map remainder (rows (projr (p_anomalize unit_env spike_frame ''date'' ''value'' one_block_config)))
     = [0, 1, 39, 0, - 41] \<and>
   map trend (rows (projr (p_anomalize unit_env spike_frame ''date'' ''value'' classical_config)))
     = [1, 2, 40, 1, - 40] \<and>
   map remainder (rows (projr (p_anomalize unit_env spike_frame ''date'' ''value'' classical_config)))
     = [0, 0, 0, 0, 0]"
proof -
  have m: "decomp one_block_config = ''additive''" "decomp classical_config = ''additive''"
    by (simp_all add: classical_config_def one_block_config_def default_config_def)
  let ?X = "p_anomalize unit_env spike_frame ''date'' ''value'' one_block_config"
  let ?r = "\<lparr>date = 2 :: nat, observed = 40, seasonal = 0, seasadj = 40, trend = 1,
          remainder = 39, anomaly = Val ''Yes'', anomaly_score = Val (77 / 2),
          anomaly_direction = Val 1, recomposed_l1 = Val (- 2), recomposed_l2 = Val 5,
          observed_clean = Val (Some (15 / 4))\<rparr>"
  have mem: "?r \<in> set (rows (projr ?X))"
    by (simp add: spike_run)
  have run: "?X = Inr (projr ?X)"
    by (simp add: spike_run)
  from decomposition_identity [OF run mem]
  have "(40 :: real) = 0 + 1 + 39"
    by simp
  then show ?thesis
    using m by (simp add: spike_run classical_run)
qed

text \<open>
  C9. \<open>_iqr\<close> never reads \<open>max_anoms\<close>: two runs on the same column with the same alpha
  return the same table, whatever the two bounds are, and so do two runs of \<open>_anomalize\<close>
  that differ in \<open>max_anomalies\<close> only.
\<close>

theorem iqr_ignores_max_anoms:
  "p_iqr xs alpha m1 = p_iqr xs alpha m2 \<and>
   p_anomalize E data date_column value_column (cfg\<lparr> max_anomalies := m1 \<rparr>)
     = p_anomalize E data date_column value_column (cfg\<lparr> max_anomalies := m2 \<rparr>)"
proof
  have e: "p_iqr ys a m1 = p_iqr ys a m2" for ys a
    by (simp add: p_iqr_def)
  show "p_iqr xs alpha m1 = p_iqr xs alpha m2"
    by (rule e)
  show "p_anomalize E data date_column value_column (cfg\<lparr> max_anomalies := m1 \<rparr>)
     = p_anomalize E data date_column value_column (cfg\<lparr> max_anomalies := m2 \<rparr>)"
    by (simp add: p_anomalize_def Let_def e cong: sum.case_cong if_cong)
qed

theorem iqr_ignores_max_anoms_witness:
  "p_iqr [0, 1, 39, 0, - 41] (5 / 100) (2 / 10) = p_iqr [0, 1, 39, 0, - 41] (5 / 100) 0 \<and>
   map outlier_reported (projr (p_iqr [0, 1, 39, 0, - 41] (5 / 100) 0))
     = [''No'', ''No'', ''Yes'', ''No'', ''Yes''] \<and>
   map direction (projr (p_iqr [0, 1, 39, 0, - 41] (5 / 100) 0)) = [0, 0, 1, 0, - 1] \<and>
   map outlier_reported (projr (p_iqr [0, 1, 39, 0, - 41] (5 / 100) (2 / 10)))
     = [''No'', ''No'', ''Yes'', ''No'', ''Yes'']"
proof -
  have a: "map outlier_reported (projr (p_iqr [0, 1, 39, 0, - 41] (5 / 100) 0))
             = [''No'', ''No'', ''Yes'', ''No'', ''Yes'']"
    "map direction (projr (p_iqr [0, 1, 39, 0, - 41] (5 / 100) 0)) = [0, 0, 1, 0, - 1]"
    by code_simp+
  have e: "p_iqr [0, 1, 39, 0, - 41] (5 / 100) (2 / 10) = p_iqr [0, 1, 39, 0, - 41] (5 / 100) 0"
    by (rule iqr_ignores_max_anoms [THEN conjunct1])
  show ?thesis
    using a unfolding e by simp
qed

text \<open>
  C5 (the code departs from it). The two recomposed bounds are not ordered in general:
  the lower fence is \<open>-(Q1 + k (Q3 - Q1))\<close>, which lies above the upper fence
  \<open>Q3 + k (Q3 - Q1)\<close> as soon as \<open>Q1 + Q3 + 2 k (Q3 - Q1) < 0\<close>. On the series
  \<open>-10, -10, 0, 0, 0\<close> with \<open>iqr_alpha = 0.9\<close> (twitter decomposition, period 1, one
  median block) every row has \<open>recomposed_l1 = 25/3\<close> and \<open>recomposed_l2 = 5/3\<close>.
\<close>

theorem recomposed_bounds_cross:
  "map recomposed_l1
       (rows (projr (p_anomalize unit_env skewed_frame ''date'' ''value'' wide_alpha_config)))
     = [Val (25 / 3), Val (25 / 3), Val (25 / 3), Val (25 / 3), Val (25 / 3)] \<and>
   map recomposed_l2
       (rows (projr (p_anomalize unit_env skewed_frame ''date'' ''value'' wide_alpha_config)))
     = [Val (5 / 3), Val (5 / 3), Val (5 / 3), Val (5 / 3), Val (5 / 3)] \<and>
   map remainder
       (rows (projr (p_anomalize unit_env skewed_frame ''date'' ''value'' wide_alpha_config)))
     = [- 10, - 10, 0, 0, 0] \<and>
   np_percentile [- 10, - 10, 0, 0, 0] 25 = Some (- 10) \<and>
   np_percentile [- 10, - 10, 0, 0, 0] 75 = Some 0"
proof -
  have "np_percentile [- 10, - 10, 0, 0, 0] 25 = Some (- 10)"
       "np_percentile [- 10, - 10, 0, 0, 0] 75 = Some 0"
    by code_simp+
  then show ?thesis
    by (simp add: skewed_run)
qed

text \<open>
  C7, as the code has it. With a period greater than or equal to the length of the series
  \<open>_anomalize\<close> returns no table, whichever decomposition is chosen: the decomposition
  raises, and nothing catches the exception. It is the ConfigurationError of the
  decomposition, but for one case: the twitter branch first divides the length by the
  trend, and a trend of 0 raises ZeroDivisionError there.
\<close>

theorem period_too_long:
  assumes "period cfg = Some p" and "length (rows data) \<le> p"
    and "t = (case config.trend cfg of
                None \<Rightarrow> get_trend_frequency E (map fst (rows data)) | Some t \<Rightarrow> t)"
  shows "(\<exists>e. p_anomalize E data dc vc cfg = Inl e) \<and>
         (method_name cfg = ''twitter'' \<and> t = 0 \<longrightarrow>
            p_anomalize E data dc vc cfg = Inl ZeroDivisionError) \<and>
         (method_name cfg \<noteq> ''twitter'' \<or> t \<noteq> 0 \<longrightarrow>
            p_anomalize E data dc vc cfg = Inl ConfigurationError)"
proof -
  have sd: "seasonal_decompose E (map snd (rows data)) p model = Inl ConfigurationError" for model
    using assms(2) by (simp add: seasonal_decompose_def)
  have tw: "p_twitter_decompose E data dc vc p ms model = Inl ConfigurationError" for ms model
    by (simp add: p_twitter_decompose_def sd)
  have cl: "p_seasonal_decompose E data dc vc model p = Inl ConfigurationError" for model
    by (simp add: p_seasonal_decompose_def sd)
  have z: "method_name cfg = ''twitter'' \<and> t = 0 \<longrightarrow>
            p_anomalize E data dc vc cfg = Inl ZeroDivisionError"
    using assms(1,3) by (simp add: p_anomalize_def Let_def)
  have c: "method_name cfg \<noteq> ''twitter'' \<or> t \<noteq> 0 \<longrightarrow>
            p_anomalize E data dc vc cfg = Inl ConfigurationError"
    using assms(1,3) by (auto simp: p_anomalize_def Let_def tw cl)
  show ?thesis
    using z c by blast
qed

theorem period_too_long_witness:
  "period long_period_config = Some 5 \<and> length (rows spike_frame) \<le> 5 \<and>
   method_name long_period_config = ''twitter'' \<and>
   method_name (long_period_config \<lparr> method_name := ''seasonal_decompose'' \<rparr>) \<noteq> ''twitter'' \<and>
   p_anomalize unit_env spike_frame ''date'' ''value'' long_period_config
     = Inl ConfigurationError \<and>
   p_anomalize unit_env spike_frame ''date'' ''value''
       (long_period_config \<lparr> method_name := ''seasonal_decompose'' \<rparr>)
     = Inl ConfigurationError \<and>
   p_anomalize unit_env spike_frame ''date'' ''value''
       (long_period_config \<lparr> config.trend := Some 0 \<rparr>)
     = Inl ZeroDivisionError"
proof -
  have p: "period long_period_config = Some 5"
    "period (long_period_config \<lparr> method_name := ''seasonal_decompose'' \<rparr>) = Some 5"
    "period (long_period_config \<lparr> config.trend := Some 0 \<rparr>) = Some 5"
    "method_name long_period_config = ''twitter''"
    "method_name (long_period_config \<lparr> config.trend := Some 0 \<rparr>) = ''twitter''"
    "config.trend long_period_config = Some 5"
    by (simp_all add: long_period_config_def default_config_def)
  have l: "length (rows spike_frame) \<le> 5"
    by (simp add: spike_frame_def)
  have m: "method_name (long_period_config \<lparr> method_name := ''seasonal_decompose'' \<rparr>)
             \<noteq> ''twitter''"
    by simp
  have a: "p_anomalize unit_env spike_frame ''date'' ''value'' long_period_config
             = Inl ConfigurationError"
    using period_too_long [OF p(1) l refl, of unit_env "''date''" "''value''"] p(6) by simp
  have b: "p_anomalize unit_env spike_frame ''date'' ''value''
             (long_period_config \<lparr> method_name := ''seasonal_decompose'' \<rparr>)
             = Inl ConfigurationError"
    using period_too_long [OF p(2) l refl, of unit_env "''date''" "''value''"] by simp
  have c: "p_anomalize unit_env spike_frame ''date'' ''value''
             (long_period_config \<lparr> config.trend := Some 0 \<rparr>)
             = Inl ZeroDivisionError"
    using period_too_long [OF p(3) l refl, of unit_env "''date''" "''value''"] p(5) by simp
  show ?thesis
    using p(1,4) l m a b c by simp
qed

text \<open>
  C7 as the spec states it fails for the twitter decomposition with a trend of 0: the
  period is as long as the series, and the exception is the ZeroDivisionError of
  \<^verbatim>\<open>len(data) / trend\<close>, not a ConfigurationError.
\<close>

theorem zero_trend_counterexample:
  "period (long_period_config \<lparr> config.trend := Some 0 \<rparr>) = Some 5 \<and>
   length (rows spike_frame) \<le> 5 \<and>
   method_name (long_period_config \<lparr> config.trend := Some 0 \<rparr>) = ''twitter'' \<and>
   p_anomalize unit_env spike_frame ''date'' ''value''
       (long_period_config \<lparr> config.trend := Some 0 \<rparr>)
     = Inl ZeroDivisionError \<and>
   p_anomalize unit_env spike_frame ''date'' ''value''
       (long_period_config \<lparr> config.trend := Some 0 \<rparr>)
     \<noteq> Inl ConfigurationError"
proof -
  have a: "p_anomalize unit_env spike_frame ''date'' ''value''
             (long_period_config \<lparr> config.trend := Some 0 \<rparr>) = Inl ZeroDivisionError"
    by code_simp
  show ?thesis
    unfolding a by (simp add: long_period_config_def default_config_def spike_frame_def)
qed

subsection \<open>The median trend of the twitter decomposition\<close>

lemma mset_concat_replicate: "mset (concat (replicate q xs)) = repeat_mset q (mset xs)"
  by (induction q) simp_all

lemma count_blocks:
  "count (mset (concat (map (\<lambda>k. replicate (f k) k) [0..<m]))) k = (if k < m then f k else 0)"
  by (induction m) auto

lemma length_blocks: "length (concat (map (\<lambda>k. replicate (f k) k) [0..<m])) = (\<Sum>k<m. f k)"
  by (induction m) simp_all

lemma set_blocks: "set (concat (map (\<lambda>k. replicate (f k) (k::nat)) [0..<m])) \<subseteq> {0..<m}"
  by (induction m) auto

lemma sorted_blocks: "sorted (concat (map (\<lambda>k. replicate (f k) (k::nat)) [0..<m]))"
proof (induction m)
  case 0
  then show ?case by simp
next
  case (Suc m)
  have "\<forall>x \<in> set (concat (map (\<lambda>k. replicate (f k) k) [0..<m])). \<forall>y \<in> set (replicate (f m) m). x \<le> y"
    using set_blocks [of f m] by auto
  then show ?case
    using Suc by (simp add: sorted_append)
qed

lemma count_repeated:
  assumes "r \<le> m"
  shows "count (mset (concat (replicate q [0..<m]) @ take r [0..<m])) k
           = (if k < m then q + (if k < r then 1 else 0) else 0)"
proof -
  have t: "take r [0..<m] = [0..<r]" using assms by (simp add: take_upt)
  show ?thesis
    using assms by (auto simp: t mset_concat_replicate)
qed

lemma sort_repeated:
  assumes "0 < m"
  shows "sort (concat (replicate (n div m) [0..<m]) @ take (n mod m) [0..<m]) = median_blocks n m"
proof (rule properties_for_sort)
  have r: "n mod m \<le> m" using assms by (simp add: less_imp_le)
  show "mset (median_blocks n m)
          = mset (concat (replicate (n div m) [0..<m]) @ take (n mod m) [0..<m])"
    by (rule multiset_eqI) (simp only: count_repeated [OF r] median_blocks_def count_blocks)
  show "sorted (median_blocks n m)"
    unfolding median_blocks_def by (rule sorted_blocks)
qed

lemma nth_concat_replicate:
  "i < q * length xs \<Longrightarrow> concat (replicate q xs) ! i = xs ! (i mod length xs)"
proof (induction q arbitrary: i)
  case 0
  then show ?case by simp
next
  case (Suc q)
  show ?case
  proof (cases "i < length xs")
    case True
    then show ?thesis by (simp add: nth_append)
  next
    case False
    then have "i - length xs < q * length xs" using Suc.prems by simp
    from Suc.IH [OF this] False show ?thesis
      by (simp add: nth_append le_mod_geq)
  qed
qed

lemma repeated_round_robin:
  assumes "0 < m"
  shows "concat (replicate (n div m) [0..<m]) @ take (n mod m) [0..<m] = map (\<lambda>i. i mod m) [0..<n]"
proof (rule nth_equalityI)
  have r: "n mod m \<le> m" using assms by (simp add: less_imp_le)
  show len: "length (concat (replicate (n div m) [0..<m]) @ take (n mod m) [0..<m])
          = length (map (\<lambda>i. i mod m) [0..<n])"
    using r by (simp add: length_concat sum_list_replicate min_absorb2)
  fix i assume "i < length (concat (replicate (n div m) [0..<m]) @ take (n mod m) [0..<m])"
  then have i: "i < n" using len by simp
  have lc: "length (concat (replicate (n div m) [0..<m])) = n div m * m"
    by (simp add: length_concat sum_list_replicate)
  show "(concat (replicate (n div m) [0..<m]) @ take (n mod m) [0..<m]) ! i
          = map (\<lambda>i. i mod m) [0..<n] ! i"
  proof (cases "i < n div m * m")
    case True
    then have "concat (replicate (n div m) [0..<m]) ! i = [0..<m] ! (i mod m)"
      using nth_concat_replicate [of i "n div m" "[0..<m]"] by simp
    then show ?thesis
      using True i assms by (simp add: nth_append lc)
  next
    case False
    then have ge: "n div m * m \<le> i" by simp
    have lt: "i - n div m * m < n mod m"
      using i ge by (metis add.commute div_mult_mod_eq less_diff_conv2)
    have "i div m = n div m"
      using ge i assms
      by (metis div_le_mono div_mult_self_is_m le_antisym less_imp_le)
    then have "i mod m = i - n div m * m"
      by (metis minus_div_mult_eq_mod)
    then show ?thesis
      using False i lt assms by (simp add: nth_append lc)
  qed
qed

lemma zip_as_map:
  "length ks = length vs \<Longrightarrow> zip ks vs = map (\<lambda>j. (ks ! j, vs ! j)) [0..<length vs]"
  by (rule nth_equalityI) simp_all

lemma transform_median_nth:
  assumes "length ks = length vs" and "i < length vs"
  shows "transform_median ks vs ! i
           = median (map (\<lambda>j. vs ! j) (filter (\<lambda>j. ks ! j = ks ! i) [0..<length vs]))"
  using assms by (simp add: transform_median_def zip_as_map filter_map o_def)


lemma length_median_blocks: "0 < m \<Longrightarrow> length (median_blocks n m) = n"
proof -
  assume m: "0 < m"
  have "length (median_blocks n m) = length (sort (concat (replicate (n div m) [0..<m]) @ take (n mod m) [0..<m]))"
    by (simp only: sort_repeated [OF m])
  also have "\<dots> = length (map (\<lambda>i. i mod m) [0..<n])"
    by (simp only: repeated_round_robin [OF m] length_sort)
  finally show ?thesis by simp
qed

lemma mset_median_blocks:
  "0 < m \<Longrightarrow> mset (median_blocks n m) = mset (map (\<lambda>i. i mod m) [0..<n])"
  using sort_repeated [of m n] repeated_round_robin [of m n]
  by (metis mset_sort)

lemma p_twitter_decompose_cases:
  assumes "p_twitter_decompose E data dc vc p (Some m) model = Inr result"
  obtains sadj where
    "0 < m"
    "length (rows result) = length sadj"
    "\<And>i. i < length sadj \<Longrightarrow> seasadj (rows result ! i) = sadj ! i"
    "\<And>i. i < length sadj \<Longrightarrow>
       trend (rows result ! i) = transform_median (median_blocks (length sadj) m) sadj ! i"
proof -
  from assms obtain seas tr where
    sd: "seasonal_decompose E (map snd (rows data)) p model = Inr (seas, tr)"
    by (auto simp: p_twitter_decompose_def Let_def split: sum.splits)
  define sadj where "sadj = map2 (-) (map snd (rows data)) seas"
  have m: "0 < m"
    using assms sd by (auto simp: p_twitter_decompose_def Let_def repeat_sequence_def split: sum.splits if_splits)
  have rs: "repeat_sequence [0..<m] (length sadj)
              = Inr (concat (replicate (length sadj div m) [0..<m]) @ take (length sadj mod m) [0..<m])"
    using m by (simp add: repeat_sequence_def Let_def)
  have lsa: "min (length (rows data)) (length seas) = length sadj"
    by (simp add: sadj_def)
  have sr: "sort (concat (replicate (length sadj div m) [0..<m]) @ [0..<length sadj mod m])
              = median_blocks (length sadj) m"
    using sort_repeated [OF m, of "length sadj"] m by (simp add: take_upt less_imp_le)
  define trnd where "trnd = transform_median (median_blocks (length sadj) m) sadj"
  have lt: "length trnd = length sadj"
    using m by (simp add: trnd_def transform_median_def length_median_blocks)
  have r: "rows result = decomposition_rows (map fst (rows data)) (map snd (rows data)) seas sadj
                 trnd (map2 (-) sadj trnd)"
    using assms sd rs m
    by (auto simp: p_twitter_decompose_def Let_def sadj_def [symmetric] lsa sr trnd_def
             split: sum.splits)
  have ls: "length sadj \<le> length (rows data)" "length sadj \<le> length seas"
    by (simp_all add: sadj_def)
  have len: "length (rows result) = length sadj"
    using ls lt by (simp add: r decomposition_rows_def)
  show thesis
  proof (rule that [of sadj])
    show "0 < m" by (rule m)
    show "length (rows result) = length sadj" by (rule len)
  next
    fix i assume i: "i < length sadj"
    then have il: "i < length (decomposition_rows (map fst (rows data)) (map snd (rows data)) seas sadj
                 trnd (map2 (-) sadj trnd))"
      using len by (simp add: r)
    show "seasadj (rows result ! i) = sadj ! i"
      unfolding r decomposition_rows_nth [OF il] by simp
    show "trend (rows result ! i) = transform_median (median_blocks (length sadj) m) sadj ! i"
      unfolding r decomposition_rows_nth [OF il] by (simp add: trnd_def)
  qed
qed

text \<open>
  C3, as the code has it. The trend of the twitter variant is a median over blocks of
  consecutive rows, not over interleaved sub-sequences: the labels \<open>i mod median_span\<close> are
  sorted before they are attached to the rows, so the rows of label \<open>k\<close> form one run, as
  long as the \<open>k\<close>-th round-robin class (\<open>n div median_span\<close> rows, one more for the first
  \<open>n mod median_span\<close> labels). The trend of a row is the median of the seasonally
  adjusted values of its block.
\<close>

theorem twitter_trend_blocks:
  assumes "p_twitter_decompose E data dc vc p (Some m) model = Inr result"
    and "n = length (rows result)"
  shows "0 < m \<and> length (median_blocks n m) = n \<and> sorted (median_blocks n m) \<and>
         mset (median_blocks n m) = mset (map (\<lambda>i. i mod m) [0..<n]) \<and>
         (\<forall>i<n. trend (rows result ! i)
                  = median (map (\<lambda>j. seasadj (rows result ! j))
                             (filter (\<lambda>j. median_blocks n m ! j = median_blocks n m ! i) [0..<n])))"
proof (rule p_twitter_decompose_cases [OF assms(1)])
  fix sadj
  assume m: "0 < m"
    and len: "length (rows result) = length sadj"
    and sa: "\<And>i. i < length sadj \<Longrightarrow> seasadj (rows result ! i) = sadj ! i"
    and tr: "\<And>i. i < length sadj \<Longrightarrow>
       trend (rows result ! i) = transform_median (median_blocks (length sadj) m) sadj ! i"
  have n: "length sadj = n" using len assms(2) by simp
  have lb: "length (median_blocks n m) = n" by (rule length_median_blocks [OF m])
  have t: "trend (rows result ! i)
                  = median (map (\<lambda>j. seasadj (rows result ! j))
                             (filter (\<lambda>j. median_blocks n m ! j = median_blocks n m ! i) [0..<n]))"
    if i: "i < n" for i
  proof -
    have eq: "map (\<lambda>j. seasadj (rows result ! j))
              (filter (\<lambda>j. median_blocks n m ! j = median_blocks n m ! i) [0..<n])
          = map (\<lambda>j. sadj ! j)
              (filter (\<lambda>j. median_blocks n m ! j = median_blocks n m ! i) [0..<n])"
      using sa n by (intro map_cong) auto
    have "trend (rows result ! i) = transform_median (median_blocks n m) sadj ! i"
      using tr [of i] i n by simp
    also have "\<dots> = median (map (\<lambda>j. sadj ! j)
              (filter (\<lambda>j. median_blocks n m ! j = median_blocks n m ! i) [0..<n]))"
      using transform_median_nth [of "median_blocks n m" sadj i] i n lb by simp
    finally show ?thesis
      unfolding eq .
  qed
  show ?thesis
    using m lb t mset_median_blocks [OF m, of n] sorted_blocks
    by (simp add: median_blocks_def)
qed


lemma ramp_decomposition:
  "p_twitter_decompose unit_env ramp_frame ''date'' ''value'' 1 (Some 2) ''additive'' =
     Inr \<lparr>columns = [''date'', ''observed'', ''seasonal'', ''seasadj'', ''trend'', ''remainder''],
          rows = [
            \<lparr>date = 0, observed = 1, seasonal = 0, seasadj = 1, trend = 3 / 2,
              remainder = - (1 / 2)\<rparr>,
            \<lparr>date = 1, observed = 2, seasonal = 0, seasadj = 2, trend = 3 / 2,
              remainder = 1 / 2\<rparr>,
            \<lparr>date = 2, observed = 3, seasonal = 0, seasadj = 3, trend = 7 / 2,
              remainder = - (1 / 2)\<rparr>,
            \<lparr>date = 3, observed = 4, seasonal = 0, seasadj = 4, trend = 7 / 2,
              remainder = 1 / 2\<rparr>]\<rparr>"
  by code_simp

theorem twitter_trend_blocks_witness:
  "\<not> isl (p_twitter_decompose unit_env ramp_frame ''date'' ''value'' 1 (Some 2) ''additive'') \<and>
   length (rows (projr (p_twitter_decompose unit_env ramp_frame ''date'' ''value'' 1 (Some 2)
                          ''additive''))) = 4 \<and>
   median_blocks 4 2 = [0, 0, 1, 1] \<and>
   median_blocks 7 3 = [0, 0, 0, 1, 1, 2, 2] \<and>
   map seasadj (rows (projr (p_twitter_decompose unit_env ramp_frame ''date'' ''value'' 1 (Some 2)
                               ''additive''))) = [1, 2, 3, 4] \<and>
   map trend (rows (projr (p_twitter_decompose unit_env ramp_frame ''date'' ''value'' 1 (Some 2)
                             ''additive''))) = [3 / 2, 3 / 2, 7 / 2, 7 / 2] \<and>
   median [1, 2] = 3 / 2 \<and> median [3, 4] = 7 / 2"
proof -
  let ?X = "p_twitter_decompose unit_env ramp_frame ''date'' ''value'' 1 (Some 2) ''additive''"
  have run: "?X = Inr (projr ?X)"
    unfolding ramp_decomposition by simp
  have n: "4 = length (rows (projr ?X))"
    unfolding ramp_decomposition by simp
  have b: "median_blocks 4 2 = [0, 0, 1, 1]" "median_blocks 7 3 = [0, 0, 0, 1, 1, 2, 2]"
    "median [1, 2] = 3 / 2" "median [3, 4] = 7 / 2"
    by code_simp+
  from twitter_trend_blocks [OF run n]
  have "length (median_blocks 4 2) = 4"
    by simp
  then show ?thesis
    using b unfolding ramp_decomposition by simp
qed

text \<open>
  C3 as the spec states it fails: on the series 1, 2, 3, 4 with two sub-sequences the code
  gives the trend 1.5, 1.5, 3.5, 3.5 (the medians of 1, 2 and of 3, 4), where round-robin
  sub-sequences would give 2, 3, 2, 3 (the medians of 1, 3 and of 2, 4).
\<close>

theorem round_robin_counterexample:
  "map trend (rows (projr (p_twitter_decompose unit_env ramp_frame ''date'' ''value'' 1 (Some 2)
                             ''additive''))) = [3 / 2, 3 / 2, 7 / 2, 7 / 2] \<and>
   round_robin_trend
     (map seasadj (rows (projr (p_twitter_decompose unit_env ramp_frame ''date'' ''value'' 1
                                  (Some 2) ''additive'')))) 2 = [2, 3, 2, 3] \<and>
   map trend (rows (projr (p_twitter_decompose unit_env ramp_frame ''date'' ''value'' 1 (Some 2)
                             ''additive'')))
     \<noteq> round_robin_trend
         (map seasadj (rows (projr (p_twitter_decompose unit_env ramp_frame ''date'' ''value'' 1
                                      (Some 2) ''additive'')))) 2"
proof -
  have "round_robin_trend [1, 2, 3, 4] 2 = [2, 3, 2, 3]"
    by code_simp
  then show ?thesis
    unfolding ramp_decomposition by simp
qed

subsection \<open>The column axis\<close>

lemma decomposition_columns_of:
  assumes "decomposition E data dc vc cfg = Inr result"
  shows "columns result = dc # decomposition_columns \<and> dc \<notin> set decomposition_columns"
  using assms
  by (auto simp: decomposition_def p_twitter_decompose_def p_seasonal_decompose_def Let_def
        reset_index_def
        split: if_splits sum.splits prod.splits option.splits)

lemma p_anomalize_columns_raw:
  assumes "p_anomalize E data dc vc cfg = Inr out"
  shows "\<exists>result. decomposition E data dc vc cfg = Inr result \<and>
           columns out =
             (if bind_data cfg
              then columns data @ filter (\<lambda>c. c \<noteq> dc)
                     (assign dc (foldl (\<lambda>cs n. assign n cs) (columns result) anomaly_columns))
              else assign dc (foldl (\<lambda>cs n. assign n cs) (columns result) anomaly_columns))"
  using assms
  by (auto simp: p_anomalize_def decomposition_def Let_def split: sum.splits if_splits)

lemma assigned_columns:
  assumes "dc \<notin> set decomposition_columns" and "dc \<notin> set anomaly_columns"
  shows "assign dc (foldl (\<lambda>cs n. assign n cs) (dc # decomposition_columns) anomaly_columns)
           = dc # decomposition_columns @ anomaly_columns"
  using assms by (auto simp: assign_def decomposition_columns_def anomaly_columns_def)

lemma dropped_columns:
  assumes "dc \<notin> set decomposition_columns" and "dc \<notin> set anomaly_columns"
  shows "filter (\<lambda>c. c \<noteq> dc) (dc # decomposition_columns @ anomaly_columns)
           = decomposition_columns @ anomaly_columns"
  using assms by (auto simp: decomposition_columns_def anomaly_columns_def)

lemma p_anomalize_columns:
  assumes "p_anomalize E data dc vc cfg = Inr out" and "dc \<notin> set anomaly_columns"
  shows "columns out =
           (if bind_data cfg then columns data @ decomposition_columns @ anomaly_columns
            else dc # decomposition_columns @ anomaly_columns)"
proof -
  from p_anomalize_columns_raw [OF assms(1)] obtain result where
    res: "decomposition E data dc vc cfg = Inr result"
    and c: "columns out =
             (if bind_data cfg
              then columns data @ filter (\<lambda>c. c \<noteq> dc)
                     (assign dc (foldl (\<lambda>cs n. assign n cs) (columns result) anomaly_columns))
              else assign dc (foldl (\<lambda>cs n. assign n cs) (columns result) anomaly_columns))"
    by blast
  note d = decomposition_columns_of [OF res]
  have a: "assign dc (foldl (\<lambda>cs n. assign n cs) (columns result) anomaly_columns)
           = dc # decomposition_columns @ anomaly_columns"
    using assigned_columns [OF conjunct2 [OF d] assms(2)] d by simp
  show ?thesis
    unfolding c a dropped_columns [OF conjunct2 [OF d] assms(2)] by simp
qed

lemma apply_groups_columns:
  assumes "apply_groups cols groups func = Inr out"
  shows "\<exists>g res. func \<lparr> columns = cols, rows = g \<rparr> = Inr res \<and> columns out = columns res"
proof (cases groups)
  case Nil
  then show ?thesis using assms by (simp add: apply_groups_def)
next
  case (Cons kg rest)
  obtain key g where kg: "kg = (key, g)" by (cases kg)
  from assms obtain res where
    "func \<lparr> columns = cols, rows = g \<rparr> = Inr res" "columns out = columns res"
    unfolding Cons kg
    by (auto simp: apply_groups_def split: sum.splits list.splits)
  then show ?thesis by blast
qed

text \<open>
  C8, as the code has it. When \<open>anomalize\<close> returns a table, and the timestamp column is not
  named like one of the six columns of steps 3 and 4, its columns are: the grouping
  columns (if any); then, without \<open>bind_data\<close>, the timestamp column, \<open>observed\<close>,
  \<open>seasonal\<close>, \<open>seasadj\<close>, \<open>trend\<close>, \<open>remainder\<close>, \<open>anomaly\<close>, \<open>anomaly_score\<close>,
  \<open>anomaly_direction\<close>, \<open>recomposed_l1\<close>, \<open>recomposed_l2\<close>, \<open>observed_clean\<close>; with \<open>bind_data\<close>,
  the columns of the input first, followed by \<open>observed\<close> ... \<open>observed_clean\<close> (the
  timestamp column of the result is dropped before the two tables are put side by side).
\<close>

theorem anomalize_columns:
  assumes "anomalize E data dc vc cfg = Inr out" and "dc \<notin> set anomaly_columns"
  shows "columns out =
           grouping_columns data @
           (if bind_data cfg then input_columns data @ decomposition_columns @ anomaly_columns
            else dc # decomposition_columns @ anomaly_columns)"
proof (cases data)
  case (DataFrame df)
  from assms(1) obtain res where
    r: "p_anomalize E df dc vc cfg = Inr res" and o: "columns out = columns res"
    unfolding DataFrame by (auto simp: anomalize_def split: sum.splits)
  show ?thesis
    unfolding o p_anomalize_columns [OF r assms(2)]
    by (simp add: DataFrame grouping_columns_def input_columns_def)
next
  case (DataFrameGroupBy group_names cols groups)
  from assms(1) obtain result where
    a: "apply_groups cols groups (\<lambda>g. p_anomalize E g dc vc cfg) = Inr result"
    and ri: "reset_index group_names (columns result) = Inr (columns out)"
    unfolding DataFrameGroupBy
    by (auto simp: anomalize_def progress_apply_def parallel_apply_def split: sum.splits if_splits)
  from apply_groups_columns [OF a] obtain g res where
    r: "p_anomalize E \<lparr> columns = cols, rows = g \<rparr> dc vc cfg = Inr res"
    and c: "columns result = columns res"
    by blast
  have "columns out = group_names @ columns result"
    using ri by (auto simp: reset_index_def split: if_splits)
  then show ?thesis
    unfolding c p_anomalize_columns [OF r assms(2)]
    by (simp add: DataFrameGroupBy grouping_columns_def input_columns_def)
qed


lemma plain_bind_columns:
  "map_sum id columns (anomalize unit_env plain_table ''date'' ''value'' bind_config) =
     Inr [''date'', ''value'', ''observed'', ''seasonal'', ''seasadj'', ''trend'', ''remainder'',
          ''anomaly'', ''anomaly_score'', ''anomaly_direction'', ''recomposed_l1'',
          ''recomposed_l2'', ''observed_clean'']"
  by code_simp

lemma grouped_columns:
  "map_sum id columns (anomalize unit_env two_groups ''date'' ''value'' one_block_config) =
     Inr [''id'', ''date'', ''observed'', ''seasonal'', ''seasadj'', ''trend'', ''remainder'',
          ''anomaly'', ''anomaly_score'', ''anomaly_direction'', ''recomposed_l1'',
          ''recomposed_l2'', ''observed_clean'']"
  by code_simp

theorem anomalize_columns_witness:
  "\<not> isl (anomalize unit_env plain_table ''date'' ''value'' bind_config) \<and>
   \<not> isl (anomalize unit_env two_groups ''date'' ''value'' one_block_config) \<and>
   ''date'' \<notin> set anomaly_columns \<and> bind_data bind_config \<and> \<not> bind_data one_block_config \<and>
   input_columns plain_table = [''date'', ''value''] \<and> grouping_columns plain_table = [] \<and>
   grouping_columns two_groups = [''id''] \<and>
   columns (projr (anomalize unit_env plain_table ''date'' ''value'' bind_config))
     = [''date'', ''value'', ''observed'', ''seasonal'', ''seasadj'', ''trend'', ''remainder'',
        ''anomaly'', ''anomaly_score'', ''anomaly_direction'', ''recomposed_l1'',
        ''recomposed_l2'', ''observed_clean''] \<and>
   columns (projr (anomalize unit_env two_groups ''date'' ''value'' one_block_config))
     = [''id'', ''date'', ''observed'', ''seasonal'', ''seasadj'', ''trend'', ''remainder'',
        ''anomaly'', ''anomaly_score'', ''anomaly_direction'', ''recomposed_l1'',
        ''recomposed_l2'', ''observed_clean'']"
proof -
  let ?X = "anomalize unit_env plain_table ''date'' ''value'' bind_config"
  let ?Y = "anomalize unit_env two_groups ''date'' ''value'' one_block_config"
  have x: "\<not> isl ?X" using plain_bind_columns by (cases ?X) simp_all
  have y: "\<not> isl ?Y" using grouped_columns by (cases ?Y) simp_all
  have runx: "?X = Inr (projr ?X)" using x by (cases ?X) simp_all
  have runy: "?Y = Inr (projr ?Y)" using y by (cases ?Y) simp_all
  have d: "''date'' \<notin> set anomaly_columns"
    by (simp add: anomaly_columns_def)
  have b: "bind_data bind_config" "\<not> bind_data one_block_config"
    by (simp_all add: bind_config_def one_block_config_def default_config_def)
  have i: "input_columns plain_table = [''date'', ''value'']" "grouping_columns plain_table = []"
    "grouping_columns two_groups = [''id'']"
    by (simp_all add: input_columns_def grouping_columns_def plain_table_def two_groups_def
          spike_frame_def)
  have cx: "columns (projr ?X) = [''date'', ''value''] @ decomposition_columns @ anomaly_columns"
    using anomalize_columns [OF runx d] b i by simp
  have cy: "columns (projr ?Y) = [''id''] @ ''date'' # decomposition_columns @ anomaly_columns"
    using anomalize_columns [OF runy d] b i by simp
  show ?thesis
    using x y d b i
    by (simp add: cx cy decomposition_columns_def anomaly_columns_def)
qed

text \<open>
  C8 as the spec states it fails for \<open>bind_data\<close>: the spec puts the original columns
  after the result columns; the code puts them first and has no timestamp column of its
  own after them.
\<close>

theorem bind_data_order_counterexample:
  "columns (projr (anomalize unit_env plain_table ''date'' ''value'' bind_config))
     = [''date'', ''value'', ''observed'', ''seasonal'', ''seasadj'', ''trend'', ''remainder'',
        ''anomaly'', ''anomaly_score'', ''anomaly_direction'', ''recomposed_l1'',
        ''recomposed_l2'', ''observed_clean''] \<and>
   columns (projr (anomalize unit_env plain_table ''date'' ''value'' bind_config))
     \<noteq> grouping_columns plain_table
         @ (''date'' # decomposition_columns @ anomaly_columns) @ input_columns plain_table"
proof -
  let ?X = "anomalize unit_env plain_table ''date'' ''value'' bind_config"
  have c: "columns (projr ?X)
     = [''date'', ''value'', ''observed'', ''seasonal'', ''seasadj'', ''trend'', ''remainder'',
        ''anomaly'', ''anomaly_score'', ''anomaly_direction'', ''recomposed_l1'',
        ''recomposed_l2'', ''observed_clean'']"
    using plain_bind_columns by (cases ?X) simp_all
  show ?thesis
    unfolding c
    by (simp add: grouping_columns_def input_columns_def plain_table_def spike_frame_def
          decomposition_columns_def anomaly_columns_def)
qed

section \<open>\<open>augment_expanding\<close>: what a call changes\<close>

subsection \<open>Assigning columns\<close>

lemma map_fst_set_cell: "map fst (set_cell n v al) = assign n (map fst al)"
  by (induction al) (auto simp: assign_def)

lemma map_of_set_cell: "c \<noteq> n \<Longrightarrow> map_of (set_cell n v al) c = map_of al c"
  by (induction al) auto

lemma row_extends_refl: "row_extends [] r r"
  by (simp add: row_extends_def)

lemma row_extends_trans:
  "row_extends ns r r' \<Longrightarrow> row_extends ms r' r'' \<Longrightarrow> row_extends (ns @ ms) r r''"
  by (simp add: row_extends_def)

lemma row_extends_set_cell: "row_extends [n] r (r \<lparr> cells := set_cell n v (cells r) \<rparr>)"
  by (simp add: row_extends_def map_fst_set_cell map_of_set_cell)

lemma frame_extends_refl: "frame_extends [] df df"
  by (simp add: frame_extends_def list_all2_refl row_extends_refl)

lemma frame_extends_trans:
  assumes "frame_extends ns a b" and "frame_extends ms b c"
  shows "frame_extends (ns @ ms) a c"
proof -
  have "list_all2 (row_extends (ns @ ms)) (rows a) (rows c)"
    using list_all2_trans [of "row_extends ns" "row_extends ms" "row_extends (ns @ ms)"
        "rows a" "rows b" "rows c"] assms row_extends_trans
    by (auto simp: frame_extends_def)
  then show ?thesis using assms by (simp add: frame_extends_def)
qed

lemma frame_extends_assign_column: "frame_extends [n] df (assign_column n vals df)"
  by (auto simp: frame_extends_def assign_column_def list_all2_conv_all_nth row_extends_set_cell)

lemma named_column_extends:
  assumes "named_column P mp col f g = Inr g'"
  shows "frame_extends [if f = ''quantile'' then col @ ''_expanding_quantile_50''
                        else col @ ''_expanding_'' @ f] g g'"
  using assms frame_extends_assign_column
  by (auto simp: named_column_def split: if_splits sum.splits option.splits)

lemma configurable_column_extends:
  assumes "configurable_column P mp col new conf g = Inr g'"
  shows "length conf = 4"
    and "frame_extends (case conf ! 1 of
                          PStr func_name \<Rightarrow>
                            (case expanding_attr P mp func_name of
                               None \<Rightarrow> [] | Some ef \<Rightarrow> [new])
                        | _ \<Rightarrow> []) g g'"
  using assms frame_extends_assign_column frame_extends_refl
  by (auto simp: configurable_column_def split: if_splits sum.splits option.splits pyobj.splits)

lemma tuple_column_extends:
  assumes "tuple_column P mp col name func g = Inr g'"
  shows "frame_extends (case new_column_name P mp col (PTuple [PStr name, func]) of
                          None \<Rightarrow> [] | Some n \<Rightarrow> [n]) g g'"
proof (cases func)
  case (PFunction n f)
  then show ?thesis
    using assms frame_extends_assign_column
    by (auto simp: tuple_column_def new_column_name_def split: if_splits sum.splits)
next
  case (PTuple conf)
  with assms have c: "configurable_column P mp col (col @ ''_expanding_'' @ name) conf g = Inr g'"
    by (auto simp: tuple_column_def split: list.splits pyobj.splits if_splits)
  show ?thesis
    using configurable_column_extends [OF c] PTuple
    by (auto simp: new_column_name_def split: pyobj.splits option.splits)
qed (use assms in \<open>auto simp: tuple_column_def\<close>)

lemma expanding_column_extends:
  assumes "expanding_column P mp col func g = Inr g'"
  shows "frame_extends (case new_column_name P mp col func of None \<Rightarrow> [] | Some n \<Rightarrow> [n]) g g'"
proof (cases func)
  case (PStr f)
  then show ?thesis
    using assms named_column_extends [of P mp col f g g']
    by (auto simp: expanding_column_def new_column_name_def)
next
  case (PTuple items)
  with assms obtain name where l: "length items = 2" and i: "items ! 0 = PStr name"
    and t: "tuple_column P mp col name (items ! 1) g = Inr g'"
    by (auto simp: expanding_column_def split: if_splits pyobj.splits)
  from l have "items = [items ! 0, items ! 1]"
    by (cases items; cases "tl items") auto
  then have n: "new_column_name P mp col (PTuple items)
     = new_column_name P mp col (PTuple [PStr name, items ! 1])"
    using i l by (simp add: new_column_name_def)
  show ?thesis using tuple_column_extends [OF t] n PTuple by simp
qed (use assms in \<open>auto simp: expanding_column_def\<close>)

lemma fold_err_extends:
  assumes "\<And>x s s'. f x s = Inr s' \<Longrightarrow> frame_extends (N x) s s'"
    and "fold_err f xs s = Inr s'"
  shows "frame_extends (concat (map N xs)) s s'"
  using assms(2)
proof (induction xs arbitrary: s)
  case Nil
  then show ?case by (simp add: frame_extends_refl)
next
  case (Cons x xs)
  then obtain m where m: "f x s = Inr m" and r: "fold_err f xs m = Inr s'"
    by (auto split: sum.splits)
  show ?case
    using frame_extends_trans [OF assms(1) [OF m] Cons.IH [OF r]] by simp
qed

lemma group_extends:
  assumes "expanding_columns P mp vc window_func g = Inr g'"
  shows "frame_extends
           (new_column_names P mp vc
              (case iterate window_func of Inl e \<Rightarrow> [] | Inr funcs \<Rightarrow> funcs)) g g'"
proof (cases "iterate window_func")
  case (Inl e)
  have "frame_extends (concat (map (\<lambda>col. []) vc)) g g'"
    by (rule fold_err_extends [OF _ assms [unfolded expanding_columns_def]])
       (simp add: Inl)
  then show ?thesis by (simp add: Inl new_column_names_def)
next
  case (Inr funcs)
  have f: "fold_err (\<lambda>col. fold_err (expanding_column P mp col) funcs) vc g = Inr g'"
    using assms by (simp add: expanding_columns_def Inr)
  show ?thesis
    unfolding new_column_names_def Inr sum.case
    by (rule fold_err_extends [OF _ f], rule fold_err_extends [OF _],
        rule expanding_column_extends)
qed

subsection \<open>Groups, and sorting back on the index\<close>

lemma apply_each_all2:
  "apply_each f xs = Inr ys \<Longrightarrow> list_all2 (\<lambda>x y. f x = Inr y) xs ys"
  by (induction xs arbitrary: ys) (auto split: sum.splits)

lemma insort_key_all2:
  assumes "list_all2 R xs ys" and "R x y" and "\<And>a b. R a b \<Longrightarrow> f a = f b"
  shows "list_all2 R (insort_key f x xs) (insort_key f y ys)"
  using assms(1)
proof (induction rule: list_all2_induct)
  case Nil
  then show ?case using assms(2) by simp
next
  case (Cons a xs b ys)
  then show ?case using assms(2) assms(3) [OF assms(2)] assms(3) [of a b] by auto
qed

lemma sort_key_all2:
  assumes "list_all2 R xs ys" and "\<And>a b. R a b \<Longrightarrow> f a = f b"
  shows "list_all2 R (sort_key f xs) (sort_key f ys)"
  using assms(1)
  by (induction rule: list_all2_induct) (auto intro: insort_key_all2 assms(2))

lemma concat_all2:
  "list_all2 (\<lambda>a b. list_all2 R (F a) (G b)) xs ys
     \<Longrightarrow> list_all2 R (concat (map F xs)) (concat (map G ys))"
  by (induction rule: list_all2_induct) (auto intro: list_all2_appendI)

lemma mset_partition_keys:
  assumes "distinct ks" and "key ` set xs \<subseteq> set ks"
  shows "mset (concat (map (\<lambda>k. filter (\<lambda>r. key r = k) xs) ks)) = mset xs"
  using assms
proof (induction ks arbitrary: xs)
  case Nil
  then show ?case by simp
next
  case (Cons k ks)
  let ?rest = "filter (\<lambda>r. key r \<noteq> k) xs"
  have s: "key ` set ?rest \<subseteq> set ks" using Cons.prems by auto
  have "map (\<lambda>k'. filter (\<lambda>r. key r = k') xs) ks = map (\<lambda>k'. filter (\<lambda>r. key r = k') ?rest) ks"
  proof (rule map_cong [OF refl])
    fix k' assume "k' \<in> set ks"
    then have "k' \<noteq> k" using Cons.prems by auto
    then show "filter (\<lambda>r. key r = k') xs = filter (\<lambda>r. key r = k') ?rest"
      by (auto intro: filter_cong)
  qed
  moreover have "mset (concat (map (\<lambda>k'. filter (\<lambda>r. key r = k') ?rest) ks)) = mset ?rest"
    using Cons.prems by (intro Cons.IH [OF _ s]) simp
  ultimately have "mset (concat (map (\<lambda>k'. filter (\<lambda>r. key r = k') xs) ks)) = mset ?rest"
    by (simp only:)
  then show ?case by (simp add: mset_filter)
qed

lemma sort_key_unique:
  assumes m: "mset ys = mset xs" and s: "sorted (map f xs)" and d: "distinct (map f xs)"
  shows "sort_key f ys = xs"
proof (rule properties_for_sort_key [OF _ _ s])
  show "mset xs = mset ys" using m by simp
next
  fix k assume k: "k \<in> set xs"
  have dy: "distinct (map f ys)"
    using d m by (metis mset_eq_imp_distinct_iff mset_map)
  have ky: "k \<in> set ys" using k m by (metis mset_eq_setD)
  have one: "\<And>zs. distinct (map f zs) \<Longrightarrow> k \<in> set zs \<Longrightarrow> filter (\<lambda>x. f k = f x) zs = [k]"
  proof -
    fix zs show "distinct (map f zs) \<Longrightarrow> k \<in> set zs \<Longrightarrow> filter (\<lambda>x. f k = f x) zs = [k]"
      by (induction zs) (auto simp: image_iff filter_empty_conv)
  qed
  show "filter (\<lambda>x. f k = f x) xs = filter (\<lambda>x. f k = f x) ys"
    using one [OF d k] one [OF dy ky] by simp
qed

lemma groupby_columns: "g \<in> set (groupby names df) \<Longrightarrow> columns g = columns df"
  by (auto simp: groupby_def Let_def)

lemma groupby_mset:
  assumes "\<forall>r \<in> set (rows df). NaN \<notin> set (key_of names r)"
  shows "mset (concat (map rows (groupby names df))) = mset (rows df)"
proof -
  have live: "filter (\<lambda>r. NaN \<notin> set (key_of names r)) (rows df) = rows df"
    using assms by simp
  have "map rows (groupby names df)
    = map (\<lambda>k. filter (\<lambda>r. key_of names r = k) (rows df)) (remdups (map (key_of names) (rows df)))"
    unfolding groupby_def Let_def live by (simp add: comp_def)
  then show ?thesis
    using mset_partition_keys [of "remdups (map (key_of names) (rows df))" "key_of names" "rows df"]
    by simp
qed

lemma sort_values_simps:
  "columns (sort_values by df) = columns df"
  "mset (rows (sort_values by df)) = mset (rows df)"
  "set (rows (sort_values by df)) = set (rows df)"
  by (simp_all add: sort_values_def)

lemma grouped_tables:
  fixes data dc
  defines "grouped \<equiv>
            (case data of
               GroupedTable group_names df \<Rightarrow>
                 groupby group_names (sort_values (group_names @ [dc]) (table_of data))
             | Table df \<Rightarrow> [sort_values [dc] (table_of data)])"
  assumes "\<forall>r \<in> set (rows (table_of data)). NaN \<notin> set (key_of (group_names_of data) r)"
  shows "\<forall>g \<in> set grouped. columns g = columns (table_of data)"
    and "mset (concat (map rows grouped)) = mset (rows (table_of data))"
proof -
  show "\<forall>g \<in> set grouped. columns g = columns (table_of data)"
    unfolding grouped_def
    by (cases data) (auto simp: sort_values_simps dest: groupby_columns)
  show "mset (concat (map rows grouped)) = mset (rows (table_of data))"
  proof (cases data)
    case (Table df)
    then show ?thesis unfolding grouped_def by (simp add: sort_values_simps)
  next
    case (GroupedTable group_names df)
    have "\<forall>r \<in> set (rows (sort_values (group_names @ [dc]) df)). NaN \<notin> set (key_of group_names r)"
      using assms(2) GroupedTable by (simp add: sort_values_simps table_of_def group_names_of_def)
    from groupby_mset [OF this] show ?thesis
      unfolding grouped_def using GroupedTable by (simp add: sort_values_simps table_of_def)
  qed
qed


subsection \<open>A run of the pandas engine\<close>

lemma pandas_run:
  assumes run: "p_augment_expanding_pandas P data dc vc funcs mp = Inr out"
  obtains rs df where
    "apply_each (expanding_columns P mp vc funcs)
       (case data of
               GroupedTable group_names df \<Rightarrow>
                 groupby group_names (sort_values (group_names @ [dc]) (table_of data))
             | Table df \<Rightarrow> [sort_values [dc] (table_of data)]) = Inr rs"
    "concat_frames rs = Inr df" "out = sort_index df"
proof -
  let ?a = "apply_each (expanding_columns P mp vc funcs)
       (case data of
               GroupedTable group_names df \<Rightarrow>
                 groupby group_names (sort_values (group_names @ [dc]) (table_of data))
             | Table df \<Rightarrow> [sort_values [dc] (table_of data)])"
  have dc: "dc \<in> set (columns (table_of data))"
    using run by (auto simp: p_augment_expanding_pandas_def Let_def split: if_splits)
  have e: "p_augment_expanding_pandas P data dc vc funcs mp =
             (case ?a of Inl e \<Rightarrow> Inl e
              | Inr result_dfs \<Rightarrow>
                  (case concat_frames result_dfs of
                     Inl e \<Rightarrow> Inl e
                   | Inr result_df \<Rightarrow> Inr (sort_index result_df)))"
    using dc by (simp add: p_augment_expanding_pandas_def Let_def)
  from run obtain rs where a: "?a = Inr rs"
    unfolding e by (cases ?a) simp_all
  from run obtain df where c: "concat_frames rs = Inr df" and o: "out = sort_index df"
    unfolding e a by (cases "concat_frames rs") auto
  show thesis by (rule that [OF a c o])
qed

lemma pandas_extends:
  assumes run: "p_augment_expanding_pandas P data dc vc funcs mp = Inr out"
    and s: "sorted (map label (rows (table_of data)))"
    and d: "distinct (map label (rows (table_of data)))"
    and n: "\<forall>r \<in> set (rows (table_of data)). NaN \<notin> set (key_of (group_names_of data) r)"
  shows "frame_extends
           (new_column_names P mp vc (case iterate funcs of Inl e \<Rightarrow> [] | Inr fs \<Rightarrow> fs))
           (table_of data) out"
proof (rule pandas_run [OF run])
  fix rs df
  let ?names = "new_column_names P mp vc (case iterate funcs of Inl e \<Rightarrow> [] | Inr fs \<Rightarrow> fs)"
  let ?grouped = "(case data of
               GroupedTable group_names df \<Rightarrow>
                 groupby group_names (sort_values (group_names @ [dc]) (table_of data))
             | Table df \<Rightarrow> [sort_values [dc] (table_of data)])"
  assume a: "apply_each (expanding_columns P mp vc funcs)
       ?grouped = Inr rs"
    and c: "concat_frames rs = Inr df" and o: "out = sort_index df"
  have cols: "\<forall>g \<in> set ?grouped. columns g = columns (table_of data)"
    by (rule grouped_tables(1) [OF n])
  have ms: "mset (concat (map rows ?grouped)) = mset (rows (table_of data))"
    by (rule grouped_tables(2) [OF n])
  have all2: "list_all2 (frame_extends ?names) ?grouped rs"
    using apply_each_all2 [OF a] by (rule list_all2_mono) (rule group_extends)
  then have "list_all2 (\<lambda>g g'. list_all2 (row_extends ?names) (rows g) (rows g')) ?grouped rs"
    by (rule list_all2_mono) (simp add: frame_extends_def)
  then have rws: "list_all2 (row_extends ?names) (concat (map rows ?grouped)) (concat (map rows rs))"
    by (rule concat_all2)
  from c obtain r rs' where rs: "rs = r # rs'"
    and df: "df = \<lparr> columns = columns r, rows = concat (map rows rs) \<rparr>"
    by (cases rs) (auto simp: concat_frames_def)
  from all2 obtain g gs where g: "?grouped = g # gs" and e: "frame_extends ?names g r"
    unfolding rs by (auto simp: list_all2_Cons2)
  have "g \<in> set ?grouped" unfolding g by simp
  then have cg: "columns g = columns (table_of data)" using cols by blast
  have c1: "columns out = foldl (\<lambda>cs n. assign n cs) (columns (table_of data)) ?names"
    using e cg by (simp add: o df sort_index_def frame_extends_def)
  have sk: "sort_key label (concat (map rows ?grouped)) = rows (table_of data)"
    by (rule sort_key_unique [OF ms s d])
  have lab: "\<And>a b. row_extends ?names a b \<Longrightarrow> label a = label b"
    by (simp add: row_extends_def)
  have "list_all2 (row_extends ?names) (sort_key label (concat (map rows ?grouped)))
          (sort_key label (concat (map rows rs)))"
    by (rule sort_key_all2 [OF rws lab])
  then have c2: "list_all2 (row_extends ?names) (rows (table_of data)) (rows out)"
    unfolding sk by (simp add: o df sort_index_def)
  show ?thesis unfolding frame_extends_def using c1 c2 by blast
qed

lemma augment_expanding_pandas:
  assumes "augment_expanding P data dc vc funcs mp ''pandas'' = Inr out"
  shows "p_augment_expanding_pandas P data dc
           (case vc of Inl name \<Rightarrow> [name] | Inr names \<Rightarrow> names) (as_list funcs)
           (case mp of None \<Rightarrow> 1 | Some n \<Rightarrow> n) = Inr out"
  using assms
  by (auto simp: augment_expanding_def Let_def split: sum.splits)

text \<open>
  C10, as the code has it. Take a call of \<open>augment_expanding\<close> with the pandas engine that
  returns, on a table whose index is strictly ascending (as the default index is) and, for
  a grouped table, with no missing value in a grouping column. The columns of the result
  are the columns of the input with the new names assigned one after the other (a new
  name is appended, a name the table has already keeps its place); the rows carry the same
  index in the same order; and every cell of a column that is not one of the new names is
  what it was. The new names are those of \<open>added_columns\<close>: \<open><value_column>_expanding_\<close>
  followed by the name of the function, by \<open>quantile_50\<close> for the function \<open>quantile\<close>,
  or by the first element of a tuple.
\<close>

theorem expanding_keeps_frame:
  assumes "augment_expanding P data date_column value_column window_func min_periods ''pandas''
             = Inr out"
    and "sorted (map label (rows (table_of data)))"
    and "distinct (map label (rows (table_of data)))"
    and "\<forall>r \<in> set (rows (table_of data)). NaN \<notin> set (key_of (group_names_of data) r)"
  shows "columns out = foldl (\<lambda>cs n. assign n cs) (columns (table_of data))
                         (added_columns P value_column window_func min_periods) \<and>
         map label (rows out) = map label (rows (table_of data)) \<and>
         (\<forall>i < length (rows out). \<forall>c.
            c \<notin> set (added_columns P value_column window_func min_periods) \<longrightarrow>
              cell_at (rows out ! i) c = cell_at (rows (table_of data) ! i) c)"
proof -
  let ?names = "added_columns P value_column window_func min_periods"
  from pandas_extends [OF augment_expanding_pandas [OF assms(1)] assms(2) assms(3) assms(4)]
  have "frame_extends ?names (table_of data) out"
    by (simp add: added_columns_def)
  then have c: "columns out = foldl (\<lambda>cs n. assign n cs) (columns (table_of data)) ?names"
    and r: "list_all2 (row_extends ?names) (rows (table_of data)) (rows out)"
    by (simp_all add: frame_extends_def)
  have l: "map label (rows out) = map label (rows (table_of data))"
    using r by (induction rule: list_all2_induct) (simp_all add: row_extends_def)
  have "cell_at (rows out ! i) c = cell_at (rows (table_of data) ! i) c"
    if "i < length (rows out)" "c \<notin> set ?names" for i c
  proof -
    have "row_extends ?names (rows (table_of data) ! i) (rows out ! i)"
      using r that(1) by (simp add: list_all2_conv_all_nth)
    then show ?thesis
      using that(2) by (simp add: row_extends_def cell_at_def)
  qed
  with c l show ?thesis by blast
qed

lemma series_run:
  "augment_expanding example_engines (GroupedTable [''id''] series_table) ''date''
     (Inl ''value'') three_functions None ''pandas'' =
   Inr \<lparr>columns = [''id'', ''date'', ''value'', ''value_expanding_max'',
                    ''value_expanding_quantile_50'', ''value_expanding_total''],
        rows =
          [\<lparr>label = 0,
            cells = [(''id'', Str ''b''), (''date'', Num 2), (''value'', Num 5),
                     (''value_expanding_max'', Num 7),
                     (''value_expanding_quantile_50'', Num 6),
                     (''value_expanding_total'', Num 12)]\<rparr>,
           \<lparr>label = 1,
            cells = [(''id'', Str ''a''), (''date'', Num 1), (''value'', Num 3),
                     (''value_expanding_max'', Num 3),
                     (''value_expanding_quantile_50'', Num 3),
                     (''value_expanding_total'', Num 3)]\<rparr>,
           \<lparr>label = 2,
            cells = [(''id'', Str ''b''), (''date'', Num 1), (''value'', Num 7),
                     (''value_expanding_max'', Num 7),
                     (''value_expanding_quantile_50'', Num 7),
                     (''value_expanding_total'', Num 7)]\<rparr>,
           \<lparr>label = 3,
            cells = [(''id'', Str ''a''), (''date'', Num 2), (''value'', Num 1),
                     (''value_expanding_max'', Num 3),
                     (''value_expanding_quantile_50'', Num 2),
                     (''value_expanding_total'', Num 4)]\<rparr>]\<rparr>"
  by code_simp

theorem expanding_keeps_frame_witness:
  "\<not> isl (augment_expanding example_engines (GroupedTable [''id''] series_table) ''date''
            (Inl ''value'') three_functions None ''pandas'') \<and>
   map label (rows series_table) = [0, 1, 2, 3] \<and>
   map (key_of [''id'']) (rows series_table) = [[Str ''b''], [Str ''a''], [Str ''b''], [Str ''a'']] \<and>
   added_columns example_engines (Inl ''value'') three_functions None
     = [''value_expanding_max'', ''value_expanding_quantile_50'', ''value_expanding_total''] \<and>
   columns (projr (augment_expanding example_engines (GroupedTable [''id''] series_table) ''date''
                     (Inl ''value'') three_functions None ''pandas''))
     = [''id'', ''date'', ''value'', ''value_expanding_max'', ''value_expanding_quantile_50'',
        ''value_expanding_total''] \<and>
   map label (rows (projr (augment_expanding example_engines (GroupedTable [''id''] series_table)
                             ''date'' (Inl ''value'') three_functions None ''pandas'')))
     = [0, 1, 2, 3] \<and>
   map (\<lambda>r. cell_at r ''value'')
       (rows (projr (augment_expanding example_engines (GroupedTable [''id''] series_table)
                       ''date'' (Inl ''value'') three_functions None ''pandas'')))
     = [Num 5, Num 3, Num 7, Num 1] \<and>
   map (\<lambda>r. cell_at r ''value_expanding_total'')
       (rows (projr (augment_expanding example_engines (GroupedTable [''id''] series_table)
                       ''date'' (Inl ''value'') three_functions None ''pandas'')))
     = [Num 12, Num 3, Num 7, Num 4]"
proof -
  let ?D = "GroupedTable [''id''] series_table"
  let ?X = "augment_expanding example_engines ?D ''date'' (Inl ''value'') three_functions None
              ''pandas''"
  have l: "map label (rows series_table) = [0, 1, 2, 3]"
    by (simp add: series_table_def)
  have k: "map (key_of [''id'']) (rows series_table)
             = [[Str ''b''], [Str ''a''], [Str ''b''], [Str ''a'']]"
    by (simp add: series_table_def key_of_def cell_at_def)
  have t: "table_of ?D = series_table" "group_names_of ?D = [''id'']"
    by (simp_all add: table_of_def group_names_of_def)
  have s: "sorted (map label (rows (table_of ?D)))" "distinct (map label (rows (table_of ?D)))"
    unfolding t l by simp_all
  have n: "\<forall>r \<in> set (rows (table_of ?D)). NaN \<notin> set (key_of (group_names_of ?D) r)"
    unfolding t by (simp add: series_table_def key_of_def cell_at_def)
  have a: "added_columns example_engines (Inl ''value'') three_functions None
     = [''value_expanding_max'', ''value_expanding_quantile_50'', ''value_expanding_total'']"
    by code_simp
  have run: "?X = Inr (projr ?X)"
    by (simp add: series_run)
  from expanding_keeps_frame [OF run s n]
  have "map label (rows (projr ?X)) = map label (rows series_table)"
    unfolding t by blast
  then show ?thesis
    using l k a by (simp add: series_run cell_at_def)
qed

text \<open>
  C10 as the spec states it fails on a table whose index is not ascending: the result is
  sorted on the index, so the rows of a table with the index \<open>1, 0\<close> come back in the
  order \<open>0, 1\<close>. And the function \<open>quantile\<close> adds the column
  \<open>value_expanding_quantile_50\<close>, not \<open>value_expanding_quantile\<close>.
\<close>

theorem index_order_counterexample:
  "map label (rows shuffled_table) = [1, 0] \<and>
   map label (rows (projr (augment_expanding example_engines (Table shuffled_table) ''date''
                             (Inl ''value'') (PStr ''max'') None ''pandas''))) = [0, 1] \<and>
   columns (projr (augment_expanding example_engines (Table shuffled_table) ''date''
                     (Inl ''value'') (PStr ''max'') None ''pandas''))
     = [''date'', ''value'', ''value_expanding_max''] \<and>
   columns (projr (augment_expanding example_engines (Table shuffled_table) ''date''
                     (Inl ''value'') (PStr ''quantile'') None ''pandas''))
     = [''date'', ''value'', ''value_expanding_quantile_50'']"
proof -
  have a: "map label (rows (projr (augment_expanding example_engines (Table shuffled_table)
             ''date'' (Inl ''value'') (PStr ''max'') None ''pandas''))) = [0, 1]"
    "columns (projr (augment_expanding example_engines (Table shuffled_table) ''date''
                     (Inl ''value'') (PStr ''max'') None ''pandas''))
     = [''date'', ''value'', ''value_expanding_max'']"
    "columns (projr (augment_expanding example_engines (Table shuffled_table) ''date''
                     (Inl ''value'') (PStr ''quantile'') None ''pandas''))
     = [''date'', ''value'', ''value_expanding_quantile_50'']"
    by code_simp+
  show ?thesis
    unfolding a by (simp add: shuffled_table_def)
qed

end
